theory Spec2Isabelle
  imports Main "HOL-Library.Sublist"
begin

text \<open>
  The AI Toy Companion is a Preact component, \<open>App\<close>: the user uploads a photo of a
  toy, the component asks a generation service for a description of it, and then sends
  the user's commands to the service, which answers with a reply and a picture. The
  component is modelled here as functions on its state: the classifier of errors
  \<open>isQuotaError\<close>, the error notice \<open>handleError\<close>, the reset \<open>startOver\<close>,
  the upload handler \<open>handleFileChange\<close> and the command handler \<open>sendCommand\<close>
  with their retry loops. The repository holds the component twice: the hardened variant
  (retry with backoff, debounce, abort controller) is the one modelled in full; the
  earlier variant in \<open>src/index.tsx\<close> is modelled where it differs.
\<close>

section \<open>JavaScript values and strings\<close>

text \<open>
  A string is the byte string (\<^typ>\<open>string\<close>) of its UTF-8 encoding.
  \<open>js_includes\<close> is \<open>String.prototype.includes\<close>: the argument occurs as a
  contiguous run of the receiver. \<open>toLowerCase\<close> maps the letters A to Z to a to z
  and leaves every other byte alone: the letters of other alphabets, which JavaScript
  lowers as well, stay as they are, and no keyword of the classifier has any.
\<close>

definition js_includes :: "string \<Rightarrow> string \<Rightarrow> bool" where
  "js_includes s k = sublist k s"

definition lower_char :: "char \<Rightarrow> char" where
  "lower_char c =
     (let n = (of_char c :: nat) in if 65 \<le> n \<and> n \<le> 90 then char_of (n + 32) else c)"

definition toLowerCase :: "string \<Rightarrow> string" where
  "toLowerCase s = map lower_char s"

text \<open>The white space and line terminators that \<open>trim\<close> strips, each as the
  bytes of its UTF-8 encoding: U+0009 to U+000D, U+0020, U+00A0, U+1680, U+2000 to
  U+200A, U+2028, U+2029, U+202F, U+205F, U+3000 and U+FEFF.\<close>

definition js_whitespace_codes :: "string list" where
  "js_whitespace_codes =
     [[CHR 0x09], [CHR 0x0A], [CHR 0x0B], [CHR 0x0C], [CHR 0x0D], [CHR 0x20],
      [CHR 0xC2, CHR 0xA0], [CHR 0xE1, CHR 0x9A, CHR 0x80],
      [CHR 0xE2, CHR 0x80, CHR 0x80], [CHR 0xE2, CHR 0x80, CHR 0x81],
      [CHR 0xE2, CHR 0x80, CHR 0x82], [CHR 0xE2, CHR 0x80, CHR 0x83],
      [CHR 0xE2, CHR 0x80, CHR 0x84], [CHR 0xE2, CHR 0x80, CHR 0x85],
      [CHR 0xE2, CHR 0x80, CHR 0x86], [CHR 0xE2, CHR 0x80, CHR 0x87],
      [CHR 0xE2, CHR 0x80, CHR 0x88], [CHR 0xE2, CHR 0x80, CHR 0x89],
      [CHR 0xE2, CHR 0x80, CHR 0x8A], [CHR 0xE2, CHR 0x80, CHR 0xA8],
      [CHR 0xE2, CHR 0x80, CHR 0xA9], [CHR 0xE2, CHR 0x80, CHR 0xAF],
      [CHR 0xE2, CHR 0x81, CHR 0x9F], [CHR 0xE3, CHR 0x80, CHR 0x80],
      [CHR 0xEF, CHR 0xBB, CHR 0xBF]]"

function strip_start :: "string list \<Rightarrow> string \<Rightarrow> string" where
  "strip_start ws s =
     (case find (\<lambda>w. w \<noteq> [] \<and> prefix w s) ws of
        None \<Rightarrow> s
      | Some w \<Rightarrow> strip_start ws (drop (length w) s))"
  by pat_completeness auto
termination
proof (relation "measure (\<lambda>(ws, s). length s)")
  show "wf (measure (\<lambda>(ws, s). length s))" by simp
next
  fix ws :: "string list" and s w :: string
  assume "find (\<lambda>w. w \<noteq> [] \<and> prefix w s) ws = Some w"
  then have "w \<noteq> [] \<and> prefix w s"
    by (auto simp: find_Some_iff)
  then have "0 < length w \<and> length w \<le> length s"
    by (auto simp: prefix_def)
  then have "length s - length w < length s"
    by arith
  then show "((ws, drop (length w) s), (ws, s)) \<in> measure (\<lambda>(ws, s). length s)"
    by simp
qed

text \<open>\<open>s.trim()\<close>: white space is stripped from the start, then from the end.\<close>

definition trim :: "string \<Rightarrow> string" where
  "trim s =
     rev (strip_start (map rev js_whitespace_codes) (rev (strip_start js_whitespace_codes s)))"

text \<open>A string made of white space only.\<close>

inductive whitespace_only :: "string \<Rightarrow> bool" where
  empty: "whitespace_only []"
| more: "w \<in> set js_whitespace_codes \<Longrightarrow> whitespace_only s \<Longrightarrow> whitespace_only (w @ s)"

text \<open>\<open>s.split(',')\<close>: the pieces of \<open>s\<close> between commas, at least one.\<close>

fun split_on :: "char \<Rightarrow> string \<Rightarrow> string list" where
  "split_on c [] = [[]]"
| "split_on c (x # xs) =
     (if x = c then [] # split_on c xs
      else (case split_on c xs of [] \<Rightarrow> [[x]] | y # ys \<Rightarrow> (x # y) # ys))"

text \<open>
  The values an \<open>any\<close>-typed error can take, as far as \<open>isQuotaError\<close> observes
  them: its truthiness, its \<open>message\<close> property and the result of \<open>String(...)\<close>.
  An object carries its \<open>message\<close> property (\<open>JSUndefined\<close> when it has none) and
  the string its \<open>toString\<close> produces. Numbers, big integers and symbols are left
  out.
\<close>

datatype js_value =
    JSNull
  | JSUndefined
  | JSBool bool
  | JSString string
  | JSObject js_value string

fun truthy :: "js_value \<Rightarrow> bool" where
  "truthy JSNull = False"
| "truthy JSUndefined = False"
| "truthy (JSBool b) = b"
| "truthy (JSString s) = (s \<noteq> [])"
| "truthy (JSObject m str) = True"

fun js_String :: "js_value \<Rightarrow> string" where
  "js_String JSNull = ''null''"
| "js_String JSUndefined = ''undefined''"
| "js_String (JSBool b) = (if b then ''true'' else ''false'')"
| "js_String (JSString s) = s"
| "js_String (JSObject m str) = str"

fun message :: "js_value \<Rightarrow> js_value" where
  "message (JSObject m str) = m"
| "message v = JSUndefined"

definition js_or :: "js_value \<Rightarrow> js_value \<Rightarrow> js_value" where
  "js_or a b = (if truthy a then a else b)"

section \<open>The transient-versus-fatal classifier\<close>

definition isQuotaError :: "js_value \<Rightarrow> bool" where
  "isQuotaError err =
     (if \<not> truthy err then False
      else let msg = toLowerCase (js_String (js_or (message err) err))
           in js_includes msg ''quota'' \<or> js_includes msg ''limit'' \<or> js_includes msg ''exceeded''
              \<or> js_includes msg ''rate limit'' \<or> js_includes msg ''429'')"

section \<open>Configuration\<close>

definition SAFE_RETRY_COUNT :: nat where
  "SAFE_RETRY_COUNT = 2"

definition RETRY_BASE_DELAY_MS :: nat where
  "RETRY_BASE_DELAY_MS = 800"

section \<open>Generation service: requests and responses\<close>

text \<open>
  A response of \<open>generateContent\<close>, as far as the component reads it: the \<open>text\<close>
  accessor and \<open>candidates[0].content.parts\<close>, every level of which may be absent.
  An awaited call settles after some milliseconds, resolved with a response (or with
  \<open>null\<close>/\<open>undefined\<close>) or rejected with an error value. The service is a
  function from the value of the loop variable \<open>attempt\<close> at the call to the way
  that call settles.
\<close>

record inline_data =
  data :: "string option"
  mimeType :: "string option"

record part =
  part_text :: "string option"
  inlineData :: "inline_data option"

datatype content = Content (parts: "part list option")

datatype candidate = Candidate (content: "content option")

record response =
  resp_text :: "string option"
  candidates :: "candidate list option"

datatype outcome = Resolved "response option" | Rejected js_value

type_synonym service = "nat \<Rightarrow> nat \<times> outcome"

section \<open>Component state and effects\<close>

datatype sound = Click | Reply | Image | Success | Error | MicOn | MicOff

datatype effect =
    InitializeAudio
  | PlaySound sound
  | SpeechCancel
  | ClearFileInputs
  | RevokeObjectURL string
  | Abort nat
  | GenerateContent string nat
  | Sleep nat
  | ConsoleError
  | StartRecognition
  | StopRecognition

text \<open>
  The state hooks and refs of \<open>App\<close>, then the world around them: the clock that
  \<open>Date.now()\<close> reads, the due times of the pending \<open>setTimeout\<close> callbacks
  (each one is \<open>setError('')\<close>), the number of \<open>AbortController\<close>s created so
  far (a controller is named by its number), the controllers already aborted, and the
  effects performed, in order. \<open>GenerateContent m k\<close> is a call to model \<open>m\<close>
  carrying the signal of controller \<open>k\<close>.

  State is passed explicitly, and a setter takes effect at once. A function of the
  component is created anew by every render and reads the hooks' values of that render:
  \<open>sendCommand\<close> and \<open>canSendNow\<close> read \<open>userCommand\<close>, \<open>toyImagePart\<close>
  and \<open>lastSendAt\<close> this way, so their model takes the state of the render that
  created them beside the current state. Refs, setters and the clock are those of the
  current state. \<open>ClearFileInputs\<close> empties the file inputs that are mounted. The
  sounds and the speech that the render effects play when a new reply or picture is
  stored are outside the model.
\<close>

record app =
  toyImage :: "string option"
  toyImagePart :: "inline_data option"
  toyModel :: "string option"
  toyDescription :: string
  userCommand :: string
  toyReply :: string
  actionImage :: "string option"
  isLoadingDescription :: bool
  isLoadingResponse :: bool
  isListening :: bool
  error :: string
  lastSendAt :: int
  toyImageObjectUrlRef :: "string option"
  abortControllerRef :: "nat option"
  clock :: int
  timers :: "int list"
  controllers :: nat
  aborted :: "nat list"
  trace :: "effect list"

definition perform :: "effect \<Rightarrow> app \<Rightarrow> app" where
  "perform e s = s\<lparr>trace := trace s @ [e]\<rparr>"

definition initializeAudio :: "app \<Rightarrow> app" where
  "initializeAudio s = perform InitializeAudio s"

definition playSound :: "sound \<Rightarrow> app \<Rightarrow> app" where
  "playSound k s = perform (PlaySound k) s"

text \<open>
  Time passes by \<open>d\<close> milliseconds with no other event: every timer due by then
  fires, and each of them clears the error notice.
\<close>

definition elapse :: "nat \<Rightarrow> app \<Rightarrow> app" where
  "elapse d s =
     (let t = clock s + int d
      in s\<lparr>error := (if \<exists>due \<in> set (timers s). due \<le> t then [] else error s),
            clock := t,
            timers := filter (\<lambda>due. t < due) (timers s)\<rparr>)"

definition sleep :: "nat \<Rightarrow> app \<Rightarrow> app" where
  "sleep ms s = elapse ms (perform (Sleep ms) s)"

definition handleError :: "string \<Rightarrow> app \<Rightarrow> app" where
  "handleError msg s =
     (let s1 = playSound Error (initializeAudio s)
      in s1\<lparr>error := msg, timers := timers s1 @ [clock s1 + 6000]\<rparr>)"

definition startOver :: "app \<Rightarrow> app" where
  "startOver s =
     (let s1 = perform SpeechCancel (playSound Click (initializeAudio s));
          s2 = s1\<lparr>toyImage := None, toyImagePart := None, toyModel := None,
                  toyDescription := [], userCommand := [], toyReply := [],
                  actionImage := None, error := []\<rparr>;
          s3 = perform ClearFileInputs s2;
          s4 = (case toyImageObjectUrlRef s3 of
                  None \<Rightarrow> s3
                | Some url \<Rightarrow> (perform (RevokeObjectURL url) s3)\<lparr>toyImageObjectUrlRef := None\<rparr>)
      in (case abortControllerRef s4 of
            None \<Rightarrow> s4
          | Some k \<Rightarrow> (perform (Abort k) s4)\<lparr>aborted := k # aborted s4,
                                                abortControllerRef := None\<rparr>))"

text \<open>One attempt: a fresh controller is stored in the ref and the call is issued with
  its signal; the \<open>finally\<close> block clears the ref.\<close>

definition begin_attempt :: "string \<Rightarrow> app \<Rightarrow> app" where
  "begin_attempt model s =
     (perform (GenerateContent model (controllers s)) s)
       \<lparr>abortControllerRef := Some (controllers s), controllers := controllers s + 1\<rparr>"

definition end_attempt :: "app \<Rightarrow> app" where
  "end_attempt s = s\<lparr>abortControllerRef := None\<rparr>"

definition backoff :: "nat \<Rightarrow> nat" where
  "backoff attempt = RETRY_BASE_DELAY_MS * 2 ^ attempt"

definition quota_message :: string where
  "quota_message = ''Looks like the daily request limit for the AI model has been reached. Please try again tomorrow.''"

definition reply_failed_message :: string where
  "reply_failed_message = ''Something went wrong while generating the reply. Please try again.''"

definition describe_failed_message :: string where
  "describe_failed_message = ''Could not describe the toy. Please try again.''"

definition parser_message :: string where
  "parser_message = ''I couldn't produce a reply or image. Try a simpler command like 'dance' or 'say hi'.''"

definition placeholder_description :: string where
  "placeholder_description = ''A friendly toy! (Could not get a detailed description.)''"

definition describe_model :: string where
  "describe_model = ''gemini-2.5-flash''"

definition reply_model :: string where
  "reply_model = ''gemini-2.5-flash-image-preview''"

text \<open>How an iteration of a retry loop ends: \<open>break\<close>, or on to the next test of
  the loop condition.\<close>

datatype flow = Break app | Continue app

section \<open>Sending commands\<close>

text \<open>\<open>canSendNow\<close> as created by the render of state \<open>r\<close>, called in state
  \<open>s\<close>: the time compared with is the \<open>lastSendAt\<close> of \<open>r\<close>.\<close>

definition canSendNow :: "app \<Rightarrow> app \<Rightarrow> bool \<times> app" where
  "canSendNow r s =
     (let now = clock s
      in if now - lastSendAt r < 600 then (False, s) else (True, s\<lparr>lastSendAt := now\<rparr>))"

text \<open>\<open>response.candidates?.[0]?.content?.parts || []\<close>\<close>

definition response_parts :: "response \<Rightarrow> part list" where
  "response_parts resp =
     (case candidates resp of
        None \<Rightarrow> []
      | Some [] \<Rightarrow> []
      | Some (c # cs) \<Rightarrow>
          (case content c of
             None \<Rightarrow> []
           | Some ct \<Rightarrow> (case parts ct of None \<Rightarrow> [] | Some ps \<Rightarrow> ps)))"

text \<open>The \<open>for\<close> loop over the parts, left at the first part whose
  \<open>inlineData?.data\<close> is truthy; the empty string when there is none.\<close>

fun first_image_data :: "part list \<Rightarrow> string" where
  "first_image_data [] = []"
| "first_image_data (p # ps) =
     (case inlineData p of
        None \<Rightarrow> first_image_data ps
      | Some d \<Rightarrow>
          (case data d of
             None \<Rightarrow> first_image_data ps
           | Some x \<Rightarrow> if x \<noteq> [] then x else first_image_data ps))"

text \<open>The \<open>try\<close> block of \<open>sendCommand\<close> from the resolved call on.\<close>

definition sendCommand_resolved :: "response option \<Rightarrow> app \<Rightarrow> app" where
  "sendCommand_resolved r s =
     (let foundText =
            (case r of
               None \<Rightarrow> []
             | Some resp \<Rightarrow> (case resp_text resp of None \<Rightarrow> [] | Some t \<Rightarrow> trim t));
          foundImageData =
            (case r of None \<Rightarrow> [] | Some resp \<Rightarrow> first_image_data (response_parts resp));
          s1 = (if foundText \<noteq> [] then s\<lparr>toyReply := foundText\<rparr> else s);
          s2 = (if foundImageData \<noteq> []
                then s1\<lparr>actionImage := Some (''data:image/png;base64,'' @ foundImageData)\<rparr>
                else s1)
      in if foundText = [] \<and> foundImageData = [] then handleError parser_message s2 else s2)"

text \<open>
  What \<open>sendCommand\<close> does when the call of an iteration settles, up to the end of
  the iteration: the rest of the \<open>try\<close> block or the \<open>catch\<close> block, then
  \<open>finally\<close>. \<open>attempt\<close> is the loop variable before the iteration.
\<close>

definition sendCommand_settle :: "outcome \<Rightarrow> nat \<Rightarrow> app \<Rightarrow> flow" where
  "sendCommand_settle out attempt s =
     (case out of
        Resolved r \<Rightarrow> Break (end_attempt (sendCommand_resolved r s))
      | Rejected err \<Rightarrow>
          if isQuotaError err then Break (end_attempt (handleError quota_message s))
          else if attempt + 1 > SAFE_RETRY_COUNT
          then Break (end_attempt (handleError reply_failed_message (perform ConsoleError s)))
          else Continue (end_attempt (sleep (backoff (attempt + 1)) s)))"

function sendCommand_loop :: "service \<Rightarrow> nat \<Rightarrow> app \<Rightarrow> app" where
  "sendCommand_loop svc attempt s =
     (if attempt \<le> SAFE_RETRY_COUNT
      then (case sendCommand_settle (snd (svc attempt)) attempt
                   (elapse (fst (svc attempt)) (begin_attempt reply_model s)) of
              Break s' \<Rightarrow> s'
            | Continue s' \<Rightarrow> sendCommand_loop svc (attempt + 1) s')
      else s)"
  by pat_completeness auto
termination
  by (relation "measure (\<lambda>(svc, attempt, s). SAFE_RETRY_COUNT + 1 - attempt)") auto

text \<open>An accepted submission, from the guards to the loop.\<close>

definition sendCommand_begin :: "app \<Rightarrow> app" where
  "sendCommand_begin s =
     (playSound Click (initializeAudio s))
       \<lparr>isLoadingResponse := True, toyReply := [], actionImage := None, error := []\<rparr>"

text \<open>\<open>commandText ?? userCommand ?? ''\<close>: the argument when one is passed, the
  text of the input field otherwise.\<close>

definition command_text :: "string option \<Rightarrow> app \<Rightarrow> string" where
  "command_text commandText s = (case commandText of Some c \<Rightarrow> c | None \<Rightarrow> userCommand s)"

text \<open>\<open>sendCommand\<close> as created by the render of state \<open>r\<close>, called in state
  \<open>s\<close>: the guards read the input field, the image part and, in \<open>canSendNow\<close>,
  the time of the last submission from \<open>r\<close>.\<close>

definition sendCommand_of :: "app \<Rightarrow> string option \<Rightarrow> service \<Rightarrow> app \<Rightarrow> app" where
  "sendCommand_of r commandText svc s =
     (let cmd = trim (command_text commandText r)
      in if cmd = [] \<or> toyImagePart r = None then s
         else (let (ok, s1) = canSendNow r s
               in if \<not> ok then s1
                  else (sendCommand_loop svc 0 (sendCommand_begin s1))
                         \<lparr>isLoadingResponse := False\<rparr>))"

text \<open>The \<open>sendCommand\<close> of the latest render, the one the buttons and the form
  call.\<close>

definition sendCommand :: "string option \<Rightarrow> service \<Rightarrow> app \<Rightarrow> app" where
  "sendCommand commandText svc s = sendCommand_of s commandText svc s"

section \<open>The microphone\<close>

text \<open>
  \<open>handleMicClick\<close> in a browser with speech recognition: it stops a recognition
  that is listening, and otherwise starts a new one whose \<open>onresult\<close> callback calls
  the \<open>sendCommand\<close> of the render in which the microphone was clicked, whenever the
  transcript arrives. \<open>recog_onresult r\<close> is the callback of a recognition started in
  the render of state \<open>r\<close>. Nothing but a second click on the microphone stops a
  recognition: \<open>startOver\<close> does not.
\<close>

definition handleMicClick :: "app \<Rightarrow> app" where
  "handleMicClick s =
     (let s1 = initializeAudio s
      in if isListening s
         then (playSound MicOff (perform StopRecognition s1))\<lparr>isListening := False\<rparr>
         else perform StartRecognition (playSound MicOn s1))"

definition recog_onstart :: "app \<Rightarrow> app" where
  "recog_onstart s = s\<lparr>isListening := True\<rparr>"

definition recog_onresult :: "app \<Rightarrow> string \<Rightarrow> service \<Rightarrow> app \<Rightarrow> app" where
  "recog_onresult r transcript svc s =
     sendCommand_of r (Some transcript) svc (s\<lparr>userCommand := transcript\<rparr>)"

section \<open>Uploading a photo\<close>

text \<open>
  The uploaded file: its MIME type, the object URL the browser hands out for it, and
  what the \<open>FileReader\<close> delivers after \<open>read_ms\<close> milliseconds: a data URL, or
  nothing, either because the result is not a string or because the reader reported an
  error (\<open>read_failed\<close>).
\<close>

record js_file =
  file_type :: string
  object_url :: string
  read_ms :: nat
  read_result :: "string option"
  read_failed :: bool

definition read_error :: js_value where
  "read_error = JSObject (JSString ''File could not be read as a string.'')
                         ''Error: File could not be read as a string.''"

definition could_not_read_error :: js_value where
  "could_not_read_error = JSObject (JSString ''Could not read file.'') ''Error: Could not read file.''"

definition base64Encode :: "js_file \<Rightarrow> js_value + string" where
  "base64Encode f =
     (case read_result f of
        None \<Rightarrow> Inl (if read_failed f then could_not_read_error else read_error)
      | Some result \<Rightarrow>
          Inr (case split_on CHR '','' result of
                 a # afterComma # rest \<Rightarrow> afterComma
               | _ \<Rightarrow> []))"

text \<open>
  What the \<open>try\<close> block of the description loop makes of a settled call: reading
  \<open>response.text\<close> of a \<open>null\<close> response throws a \<open>TypeError\<close>, which the
  \<open>catch\<close> block receives like a rejection.
\<close>

definition null_response_error :: js_value where
  "null_response_error =
     JSObject (JSString ''Cannot read properties of null (reading 'text')'')
              ''TypeError: Cannot read properties of null (reading 'text')''"

definition describe_result :: "outcome \<Rightarrow> js_value + response" where
  "describe_result out =
     (case out of
        Resolved None \<Rightarrow> Inl null_response_error
      | Resolved (Some resp) \<Rightarrow> Inr resp
      | Rejected err \<Rightarrow> Inl err)"

definition describe_resolved :: "response \<Rightarrow> app \<Rightarrow> app" where
  "describe_resolved resp s =
     (let parsedText = (case resp_text resp of None \<Rightarrow> [] | Some t \<Rightarrow> t);
          s1 = (if parsedText \<noteq> [] then s\<lparr>toyDescription := parsedText\<rparr>
                else s\<lparr>toyDescription := placeholder_description\<rparr>)
      in playSound Success s1)"

definition describe_settle :: "outcome \<Rightarrow> nat \<Rightarrow> app \<Rightarrow> flow" where
  "describe_settle out attempt s =
     (case describe_result out of
        Inr resp \<Rightarrow> Break (end_attempt (describe_resolved resp s))
      | Inl err \<Rightarrow>
          if isQuotaError err then Break (end_attempt (handleError quota_message s))
          else if attempt + 1 > SAFE_RETRY_COUNT
          then Break (end_attempt (handleError describe_failed_message (perform ConsoleError s)))
          else Continue (end_attempt (sleep (backoff (attempt + 1)) s)))"

function describe_loop :: "service \<Rightarrow> nat \<Rightarrow> app \<Rightarrow> app" where
  "describe_loop svc attempt s =
     (if attempt \<le> SAFE_RETRY_COUNT
      then (case describe_settle (snd (svc attempt)) attempt
                   (elapse (fst (svc attempt)) (begin_attempt describe_model s)) of
              Break s' \<Rightarrow> s'
            | Continue s' \<Rightarrow> describe_loop svc (attempt + 1) s')
      else s)"
  by pat_completeness auto
termination
  by (relation "measure (\<lambda>(svc, attempt, s). SAFE_RETRY_COUNT + 1 - attempt)") auto

text \<open>An accepted upload, from the reset to the reading of the file.\<close>

definition handleFileChange_begin :: "js_file \<Rightarrow> app \<Rightarrow> app" where
  "handleFileChange_begin f s =
     (playSound Click (initializeAudio (startOver s)))
       \<lparr>toyImageObjectUrlRef := Some (object_url f),
        toyImage := Some (object_url f),
        isLoadingDescription := True\<rparr>"

definition handleFileChange_encoded :: "js_file \<Rightarrow> string \<Rightarrow> app \<Rightarrow> app" where
  "handleFileChange_encoded f b64 s =
     s\<lparr>toyImagePart := Some \<lparr>data = Some b64, mimeType = Some (file_type f)\<rparr>\<rparr>"

definition handleFileChange :: "js_file option \<Rightarrow> service \<Rightarrow> app \<Rightarrow> app" where
  "handleFileChange fo svc s =
     (case fo of
        None \<Rightarrow> s
      | Some f \<Rightarrow>
          if \<not> prefix ''image/'' (file_type f) then handleError ''Please upload an image file.'' s
          else
            (let s3 = elapse (read_ms f) (handleFileChange_begin f s);
                 s4 = (case base64Encode f of
                         Inr b64 \<Rightarrow> describe_loop svc 0 (handleFileChange_encoded f b64 s3)
                       | Inl err \<Rightarrow>
                           (let s5 = handleError ''Failed to read the image or call the API.''
                                       (perform ConsoleError s3);
                                s6 = (case toyImageObjectUrlRef s5 of
                                        None \<Rightarrow> s5
                                      | Some url \<Rightarrow>
                                          (perform (RevokeObjectURL url) s5)
                                            \<lparr>toyImageObjectUrlRef := None\<rparr>)
                            in s6\<lparr>toyImage := None\<rparr>))
             in s4\<lparr>isLoadingDescription := False\<rparr>))"

section \<open>Iterations of the retry loops\<close>

text \<open>A failed iteration followed by its backoff and \<open>finally\<close>, and the failed
  iteration after which the loop gives up with message \<open>msg\<close>; \<open>ms\<close> is the
  time the call took to fail.\<close>

definition retry_after :: "string \<Rightarrow> nat \<Rightarrow> nat \<Rightarrow> app \<Rightarrow> app" where
  "retry_after model ms attempt s =
     end_attempt (sleep (backoff (attempt + 1)) (elapse ms (begin_attempt model s)))"

definition give_up :: "string \<Rightarrow> string \<Rightarrow> nat \<Rightarrow> app \<Rightarrow> app" where
  "give_up model msg ms s =
     end_attempt (handleError msg (perform ConsoleError (elapse ms (begin_attempt model s))))"

text \<open>The iteration that fails with a fatal error.\<close>

definition stop_fatal :: "string \<Rightarrow> nat \<Rightarrow> app \<Rightarrow> app" where
  "stop_fatal model ms s =
     end_attempt (handleError quota_message (elapse ms (begin_attempt model s)))"

text \<open>The iteration of the description loop whose call resolves with a response.\<close>

definition describe_done :: "response \<Rightarrow> nat \<Rightarrow> app \<Rightarrow> app" where
  "describe_done resp ms s =
     end_attempt (describe_resolved resp (elapse ms (begin_attempt describe_model s)))"

text \<open>The iteration of the command loop whose call resolves.\<close>

definition sendCommand_done :: "response option \<Rightarrow> nat \<Rightarrow> app \<Rightarrow> app" where
  "sendCommand_done r ms s =
     end_attempt (sendCommand_resolved r (elapse ms (begin_attempt reply_model s)))"

text \<open>The state after the first \<open>k\<close> iterations have each failed and backed off.\<close>

primrec after_failures :: "string \<Rightarrow> service \<Rightarrow> nat \<Rightarrow> app \<Rightarrow> app" where
  "after_failures model svc 0 s = s"
| "after_failures model svc (Suc k) s =
     retry_after model (fst (svc k)) k (after_failures model svc k s)"

text \<open>The state in which an iteration ends, either way.\<close>

fun flow_state :: "flow \<Rightarrow> app" where
  "flow_state (Break s) = s"
| "flow_state (Continue s) = s"

text \<open>What a failed iteration and its backoff leave alone.\<close>

definition same_session :: "app \<Rightarrow> app \<Rightarrow> bool" where
  "same_session s s' \<longleftrightarrow>
     toyImage s' = toyImage s \<and> toyImagePart s' = toyImagePart s \<and> toyModel s' = toyModel s
     \<and> toyDescription s' = toyDescription s \<and> userCommand s' = userCommand s
     \<and> toyReply s' = toyReply s \<and> actionImage s' = actionImage s
     \<and> isLoadingDescription s' = isLoadingDescription s
     \<and> isLoadingResponse s' = isLoadingResponse s \<and> isListening s' = isListening s
     \<and> lastSendAt s' = lastSendAt s \<and> toyImageObjectUrlRef s' = toyImageObjectUrlRef s
     \<and> aborted s' = aborted s \<and> (error s = [] \<longrightarrow> error s' = [])"

section \<open>Vocabulary of the specification\<close>

text \<open>The keyword set of the classifier, and the string it is matched against:
  \<open>String(err.message || err)\<close>.\<close>

definition fatal_keywords :: "string list" where
  "fatal_keywords = [''quota'', ''limit'', ''exceeded'', ''rate limit'', ''429'']"

definition stringified :: "js_value \<Rightarrow> string" where
  "stringified err = js_String (js_or (message err) err)"

text \<open>The attempts and the sleeps of a run, in order, read off the effects.\<close>

fun retry_event :: "effect \<Rightarrow> bool" where
  "retry_event (GenerateContent m k) = True"
| "retry_event (Sleep ms) = True"
| "retry_event e = False"

definition retry_events :: "effect list \<Rightarrow> effect list" where
  "retry_events tr = filter retry_event tr"

text \<open>The number of calls to the generation service among the effects.\<close>

fun is_call :: "effect \<Rightarrow> bool" where
  "is_call (GenerateContent m k) = True"
| "is_call e = False"

definition calls :: "effect list \<Rightarrow> nat" where
  "calls tr = length (filter is_call tr)"

text \<open>The inline binary payload a part carries, empty when it carries none.\<close>

definition payload :: "part \<Rightarrow> string" where
  "payload p =
     (case inlineData p of
        None \<Rightarrow> []
      | Some d \<Rightarrow> (case data d of None \<Rightarrow> [] | Some x \<Rightarrow> x))"

definition carries_payload :: "part \<Rightarrow> bool" where
  "carries_payload p = (payload p \<noteq> [])"

text \<open>The session state of the specification, derived from the loading flags and
  the captured image.\<close>

datatype session_state = Idle | DescribingImage | Ready | AwaitingReply

definition sessionState :: "app \<Rightarrow> session_state" where
  "sessionState s =
     (if isLoadingDescription s then DescribingImage
      else if isLoadingResponse s then AwaitingReply
      else if toyImage s = None \<and> toyImagePart s = None then Idle
      else Ready)"

section \<open>The earlier component\<close>

text \<open>
  \<open>src/index.tsx\<close> holds an earlier variant of the same component, with no retry
  loop, no debounce and no abort controller. These are its pieces that answer the same
  questions differently: the error notice (5 seconds), the guard of \<open>sendCommand\<close>
  (the text is not trimmed), the scan of the response parts (the last text part, and the
  last part with inline data among those without text), and the \<open>catch\<close> block of
  \<open>handleFileChange\<close> (the preview is cleared).
\<close>

definition legacy_handleError :: "string \<Rightarrow> app \<Rightarrow> app" where
  "legacy_handleError msg s =
     (let s1 = playSound Error s
      in s1\<lparr>error := msg, timers := timers s1 @ [clock s1 + 5000]\<rparr>)"

definition legacy_sendCommand_returns :: "string \<Rightarrow> app \<Rightarrow> bool" where
  "legacy_sendCommand_returns commandText s \<longleftrightarrow> commandText = [] \<or> toyImagePart s = None"

definition legacy_part_image :: "part \<Rightarrow> string \<Rightarrow> string" where
  "legacy_part_image p foundImage =
     (case inlineData p of
        None \<Rightarrow> foundImage
      | Some d \<Rightarrow>
          ''data:image/png;base64,'' @ (case data d of None \<Rightarrow> ''undefined'' | Some x \<Rightarrow> x))"

fun legacy_scan :: "part list \<Rightarrow> string \<times> string \<Rightarrow> string \<times> string" where
  "legacy_scan [] found = found"
| "legacy_scan (p # ps) (foundText, foundImage) =
     (case part_text p of
        None \<Rightarrow> legacy_scan ps (foundText, legacy_part_image p foundImage)
      | Some t \<Rightarrow>
          if t \<noteq> [] then legacy_scan ps (t, foundImage)
          else legacy_scan ps (foundText, legacy_part_image p foundImage))"

definition legacy_describe_failed :: "string \<Rightarrow> app \<Rightarrow> app" where
  "legacy_describe_failed errString s =
     (let s1 = perform ConsoleError s;
          s2 = (if js_includes (toLowerCase errString) ''quota''
                then legacy_handleError
                       ''You've reached the daily limit for requests. Please try again tomorrow!'' s1
                else legacy_handleError ''Could not describe the toy. Please try again.'' s1)
      in s2\<lparr>toyImage := None, isLoadingDescription := False\<rparr>)"

section \<open>Sample inputs\<close>

text \<open>The component as mounted at time \<open>t\<close>.\<close>

definition initial_app :: "int \<Rightarrow> app" where
  "initial_app t =
     \<lparr>toyImage = None, toyImagePart = None, toyModel = None, toyDescription = [],
      userCommand = [], toyReply = [], actionImage = None, isLoadingDescription = False,
      isLoadingResponse = False, isListening = False, error = [], lastSendAt = 0,
      toyImageObjectUrlRef = None, abortControllerRef = None, clock = t, timers = [],
      controllers = 0, aborted = [], trace = []\<rparr>"

definition bear_photo :: js_file where
  "bear_photo =
     \<lparr>file_type = ''image/png'', object_url = ''blob:bear'', read_ms = 5,
      read_result = Some ''data:image/png;base64,AAAA'', read_failed = False\<rparr>"

definition network_error :: js_value where
  "network_error = JSObject (JSString ''Failed to fetch'') ''TypeError: Failed to fetch''"

definition quota_error :: js_value where
  "quota_error = JSObject (JSString ''Quota exceeded'') ''Error: Quota exceeded''"

definition abort_error :: js_value where
  "abort_error =
     JSObject (JSString ''The operation was aborted.'') ''AbortError: The operation was aborted.''"

definition text_response :: "string \<Rightarrow> response" where
  "text_response t = \<lparr>resp_text = Some t, candidates = None\<rparr>"

text \<open>A session with the bear's photo loaded and described, at time \<open>t\<close>.\<close>

definition ready_app :: "int \<Rightarrow> app" where
  "ready_app t =
     (initial_app t)
       \<lparr>toyImage := Some ''blob:bear'',
        toyImagePart := Some \<lparr>data = Some ''AAAA'', mimeType = Some ''image/png''\<rparr>,
        toyDescription := ''A fluffy bear'',
        toyImageObjectUrlRef := Some ''blob:bear''\<rparr>"

text \<open>A part with a picture.\<close>

definition image_part :: "string \<Rightarrow> part" where
  "image_part d =
     \<lparr>part_text = None, inlineData = Some \<lparr>data = Some d, mimeType = Some ''image/png''\<rparr>\<rparr>"

text \<open>A reply with text and two pictures.\<close>

definition whee_response :: response where
  "whee_response =
     \<lparr>resp_text = Some '' Whee! '',
      candidates = Some [Candidate (Some (Content (Some
        [\<lparr>part_text = Some '' Whee! '', inlineData = None\<rparr>,
         image_part ''IMG1'', image_part ''IMG2''])))]\<rparr>"

section \<open>Basic facts\<close>

declare sendCommand_loop.simps [simp del]
declare describe_loop.simps [simp del]

lemmas effect_defs =
  perform_def initializeAudio_def playSound_def elapse_def sleep_def handleError_def
  begin_attempt_def end_attempt_def

lemma sendCommand_loop_Break:
  assumes "attempt \<le> SAFE_RETRY_COUNT"
    and "sendCommand_settle (snd (svc attempt)) attempt
           (elapse (fst (svc attempt)) (begin_attempt reply_model s)) = Break s'"
  shows "sendCommand_loop svc attempt s = s'"
  using assms by (subst sendCommand_loop.simps) simp

lemma sendCommand_loop_Continue:
  assumes "attempt \<le> SAFE_RETRY_COUNT"
    and "sendCommand_settle (snd (svc attempt)) attempt
           (elapse (fst (svc attempt)) (begin_attempt reply_model s)) = Continue s'"
  shows "sendCommand_loop svc attempt s = sendCommand_loop svc (attempt + 1) s'"
  using assms by (subst sendCommand_loop.simps) simp

lemma describe_loop_Break:
  assumes "attempt \<le> SAFE_RETRY_COUNT"
    and "describe_settle (snd (svc attempt)) attempt
           (elapse (fst (svc attempt)) (begin_attempt describe_model s)) = Break s'"
  shows "describe_loop svc attempt s = s'"
  using assms by (subst describe_loop.simps) simp

lemma describe_loop_Continue:
  assumes "attempt \<le> SAFE_RETRY_COUNT"
    and "describe_settle (snd (svc attempt)) attempt
           (elapse (fst (svc attempt)) (begin_attempt describe_model s)) = Continue s'"
  shows "describe_loop svc attempt s = describe_loop svc (attempt + 1) s'"
  using assms by (subst describe_loop.simps) simp

lemma sendCommand_settle_transient:
  assumes "\<not> isQuotaError err"
  shows "sendCommand_settle (Rejected err) attempt s =
           (if attempt + 1 > SAFE_RETRY_COUNT
            then Break (end_attempt (handleError reply_failed_message (perform ConsoleError s)))
            else Continue (end_attempt (sleep (backoff (attempt + 1)) s)))"
  using assms by (simp add: sendCommand_settle_def)

lemma sendCommand_settle_fatal:
  assumes "isQuotaError err"
  shows "sendCommand_settle (Rejected err) attempt s =
           Break (end_attempt (handleError quota_message s))"
  using assms by (simp add: sendCommand_settle_def)

lemma describe_settle_transient:
  assumes "\<not> isQuotaError err"
  shows "describe_settle (Rejected err) attempt s =
           (if attempt + 1 > SAFE_RETRY_COUNT
            then Break (end_attempt (handleError describe_failed_message (perform ConsoleError s)))
            else Continue (end_attempt (sleep (backoff (attempt + 1)) s)))"
  using assms by (simp add: describe_settle_def describe_result_def)

lemma describe_settle_fatal:
  assumes "isQuotaError err"
  shows "describe_settle (Rejected err) attempt s =
           Break (end_attempt (handleError quota_message s))"
  using assms by (simp add: describe_settle_def describe_result_def)

lemma trace_retry_after:
  "trace (retry_after model ms attempt s) =
     trace s @ [GenerateContent model (controllers s), Sleep (backoff (attempt + 1))]"
  by (simp add: retry_after_def effect_defs Let_def)

lemma controllers_retry_after:
  "controllers (retry_after model ms attempt s) = controllers s + 1"
  by (simp add: retry_after_def effect_defs Let_def)

lemma trace_give_up:
  "trace (give_up model msg ms s) =
     trace s @ [GenerateContent model (controllers s), ConsoleError, InitializeAudio, PlaySound Error]"
  by (simp add: give_up_def effect_defs Let_def)

lemma error_give_up: "error (give_up model msg ms s) = msg"
  by (simp add: give_up_def effect_defs Let_def)

lemma sendCommand_loop_all_transient:
  assumes "\<forall>k \<le> SAFE_RETRY_COUNT. \<exists>err. snd (svc k) = Rejected err \<and> \<not> isQuotaError err"
  shows "sendCommand_loop svc 0 s =
           give_up reply_model reply_failed_message (fst (svc 2))
             (retry_after reply_model (fst (svc 1)) 1
               (retry_after reply_model (fst (svc 0)) 0 s))"
proof -
  from assms obtain e0 e1 e2 where
    e0: "snd (svc 0) = Rejected e0" "\<not> isQuotaError e0" and
    e1: "snd (svc 1) = Rejected e1" "\<not> isQuotaError e1" and
    e2: "snd (svc 2) = Rejected e2" "\<not> isQuotaError e2"
    by (metis SAFE_RETRY_COUNT_def le0 one_le_numeral order_refl)
  have "sendCommand_loop svc 0 s = sendCommand_loop svc 1 (retry_after reply_model (fst (svc 0)) 0 s)"
    using sendCommand_loop_Continue [of 0 svc s] e0
    by (simp add: sendCommand_settle_transient SAFE_RETRY_COUNT_def retry_after_def numeral_2_eq_2)
  also have "\<dots> = sendCommand_loop svc 2
      (retry_after reply_model (fst (svc 1)) 1 (retry_after reply_model (fst (svc 0)) 0 s))"
    using sendCommand_loop_Continue [of 1 svc] e1
    by (simp add: sendCommand_settle_transient SAFE_RETRY_COUNT_def retry_after_def numeral_2_eq_2)
  also have "\<dots> = give_up reply_model reply_failed_message (fst (svc 2))
      (retry_after reply_model (fst (svc 1)) 1 (retry_after reply_model (fst (svc 0)) 0 s))"
    using sendCommand_loop_Break [of 2 svc] e2
    by (simp add: sendCommand_settle_transient SAFE_RETRY_COUNT_def give_up_def numeral_2_eq_2)
  finally show ?thesis .
qed

lemma describe_loop_all_transient:
  assumes "\<forall>k \<le> SAFE_RETRY_COUNT. \<exists>err. snd (svc k) = Rejected err \<and> \<not> isQuotaError err"
  shows "describe_loop svc 0 s =
           give_up describe_model describe_failed_message (fst (svc 2))
             (retry_after describe_model (fst (svc 1)) 1
               (retry_after describe_model (fst (svc 0)) 0 s))"
proof -
  from assms obtain e0 e1 e2 where
    e0: "snd (svc 0) = Rejected e0" "\<not> isQuotaError e0" and
    e1: "snd (svc 1) = Rejected e1" "\<not> isQuotaError e1" and
    e2: "snd (svc 2) = Rejected e2" "\<not> isQuotaError e2"
    by (metis SAFE_RETRY_COUNT_def le0 one_le_numeral order_refl)
  have "describe_loop svc 0 s = describe_loop svc 1 (retry_after describe_model (fst (svc 0)) 0 s)"
    using describe_loop_Continue [of 0 svc s] e0
    by (simp add: describe_settle_transient SAFE_RETRY_COUNT_def retry_after_def numeral_2_eq_2)
  also have "\<dots> = describe_loop svc 2
      (retry_after describe_model (fst (svc 1)) 1 (retry_after describe_model (fst (svc 0)) 0 s))"
    using describe_loop_Continue [of 1 svc] e1
    by (simp add: describe_settle_transient SAFE_RETRY_COUNT_def retry_after_def numeral_2_eq_2)
  also have "\<dots> = give_up describe_model describe_failed_message (fst (svc 2))
      (retry_after describe_model (fst (svc 1)) 1 (retry_after describe_model (fst (svc 0)) 0 s))"
    using describe_loop_Break [of 2 svc] e2
    by (simp add: describe_settle_transient SAFE_RETRY_COUNT_def give_up_def numeral_2_eq_2)
  finally show ?thesis .
qed

lemma sendCommand_of_accepted:
  assumes "trim (command_text ct r) \<noteq> []" and "toyImagePart r \<noteq> None"
    and "600 \<le> clock s - lastSendAt r"
  shows "sendCommand_of r ct svc s =
           (sendCommand_loop svc 0 (sendCommand_begin (s\<lparr>lastSendAt := clock s\<rparr>)))
             \<lparr>isLoadingResponse := False\<rparr>"
  using assms by (auto simp: sendCommand_of_def canSendNow_def Let_def)

lemma sendCommand_accepted:
  assumes "trim (command_text ct s) \<noteq> []" and "toyImagePart s \<noteq> None"
    and "600 \<le> clock s - lastSendAt s"
  shows "sendCommand ct svc s =
           (sendCommand_loop svc 0 (sendCommand_begin (s\<lparr>lastSendAt := clock s\<rparr>)))
             \<lparr>isLoadingResponse := False\<rparr>"
  using assms by (simp add: sendCommand_def sendCommand_of_accepted)

lemma handleFileChange_encoded_image:
  assumes "prefix ''image/'' (file_type f)" and "base64Encode f = Inr b64"
  shows "handleFileChange (Some f) svc s =
           (describe_loop svc 0
              (handleFileChange_encoded f b64 (elapse (read_ms f) (handleFileChange_begin f s))))
             \<lparr>isLoadingDescription := False\<rparr>"
  using assms by (simp add: handleFileChange_def Let_def)

lemma base64Encode_read:
  assumes "read_result f \<noteq> None"
  shows "\<exists>b64. base64Encode f = Inr b64"
  using assms by (auto simp: base64Encode_def)

lemma trace_sendCommand_begin:
  "trace (sendCommand_begin s) = trace s @ [InitializeAudio, PlaySound Click]"
  by (simp add: sendCommand_begin_def effect_defs)

lemma controllers_sendCommand_begin: "controllers (sendCommand_begin s) = controllers s"
  by (simp add: sendCommand_begin_def effect_defs)

lemma retry_events_startOver: "retry_events (trace (startOver s)) = retry_events (trace s)"
  by (simp add: startOver_def effect_defs retry_events_def Let_def split: option.splits)

lemma controllers_startOver: "controllers (startOver s) = controllers s"
  by (simp add: startOver_def effect_defs Let_def split: option.splits)

lemma retry_events_upload:
  "retry_events (trace (handleFileChange_encoded f b64 (elapse ms (handleFileChange_begin f s))))
     = retry_events (trace s)"
  using retry_events_startOver [of s]
  by (simp add: handleFileChange_encoded_def handleFileChange_begin_def effect_defs
      retry_events_def Let_def)

lemma controllers_upload:
  "controllers (handleFileChange_encoded f b64 (elapse ms (handleFileChange_begin f s)))
     = controllers s"
  using controllers_startOver [of s]
  by (simp add: handleFileChange_encoded_def handleFileChange_begin_def effect_defs Let_def)

subsection \<open>Sample inputs\<close>

lemma network_error_transient: "\<not> isQuotaError network_error"
  by code_simp

lemma quota_error_fatal: "isQuotaError quota_error"
  by code_simp

lemma abort_error_transient: "\<not> isQuotaError abort_error"
  by code_simp

lemma trim_dance: "trim ''dance'' = ''dance''"
  by code_simp

lemma bear_photo_encoded: "base64Encode bear_photo = Inr ''AAAA''"
  by code_simp

lemma bear_photo_is_image: "prefix ''image/'' (file_type bear_photo)"
  by code_simp

section \<open>The classifier\<close>

lemma falsy_not_fatal:
  "\<not> truthy err \<Longrightarrow> \<not> (\<exists>k \<in> set fatal_keywords. js_includes (toLowerCase (stringified err)) k)"
proof (cases err)
  case JSNull
  have "\<not> (\<exists>k \<in> set fatal_keywords. js_includes (toLowerCase (stringified JSNull)) k)" by code_simp
  then show ?thesis using JSNull by simp
next
  case JSUndefined
  have "\<not> (\<exists>k \<in> set fatal_keywords. js_includes (toLowerCase (stringified JSUndefined)) k)" by code_simp
  then show ?thesis using JSUndefined by simp
next
  case (JSBool b)
  assume "\<not> truthy err"
  with JSBool have b: "b = False" by simp
  have "\<not> (\<exists>k \<in> set fatal_keywords. js_includes (toLowerCase (stringified (JSBool False))) k)" by code_simp
  then show ?thesis using JSBool b by simp
next
  case (JSString s)
  assume "\<not> truthy err"
  with JSString have b: "s = []" by simp
  have "\<not> (\<exists>k \<in> set fatal_keywords. js_includes (toLowerCase (stringified (JSString []))) k)" by code_simp
  then show ?thesis using JSString b by simp
next
  case (JSObject m str)
  assume "\<not> truthy err"
  with JSObject show ?thesis by simp
qed

text \<open>
  Claim C1. \<open>isQuotaError\<close> answers true (the error is fatal) exactly when the
  lower-cased string of the error, \<open>String(err.message || err)\<close>, contains one of
  the keywords "quota", "limit", "exceeded", "rate limit", "429"; every other error value
  is transient, \<open>null\<close> and \<open>undefined\<close> among them.
\<close>

theorem isQuotaError_iff_keyword:
  "(isQuotaError err \<longleftrightarrow>
      (\<exists>k \<in> set fatal_keywords. js_includes (toLowerCase (stringified err)) k))
   \<and> \<not> isQuotaError JSNull \<and> \<not> isQuotaError JSUndefined"
proof (cases "truthy err")
  case True
  then show ?thesis
    by (simp add: isQuotaError_def fatal_keywords_def stringified_def Let_def)
next
  case False
  then show ?thesis using falsy_not_fatal [of err] by (simp add: isQuotaError_def)
qed

theorem isQuotaError_iff_keyword_witness:
  "isQuotaError quota_error \<and> \<not> isQuotaError network_error"
proof -
  have a: "\<exists>k \<in> set fatal_keywords. js_includes (toLowerCase (stringified quota_error)) k"
    by code_simp
  have b: "\<not> (\<exists>k \<in> set fatal_keywords. js_includes (toLowerCase (stringified network_error)) k)"
    by code_simp
  show ?thesis
    using a b isQuotaError_iff_keyword [of quota_error] isQuotaError_iff_keyword [of network_error]
    by simp
qed

section \<open>The retry loops\<close>

text \<open>
  Claim C2. When every attempt fails with a transient error, an accepted command and an
  accepted upload each make exactly \<open>SAFE_RETRY_COUNT + 1 = 3\<close> calls, sleep
  \<open>RETRY_BASE_DELAY_MS * 2 ^ 1 = 1600\<close> milliseconds between the first and the second
  and \<open>RETRY_BASE_DELAY_MS * 2 ^ 2 = 3200\<close> between the second and the third, and
  end with the generic failure message of the handler in the error notice.
\<close>

theorem transient_failures_use_all_attempts:
  assumes "\<forall>k \<le> SAFE_RETRY_COUNT. \<exists>err. snd (svc k) = Rejected err \<and> \<not> isQuotaError err"
  shows "(trim (command_text ct s) \<noteq> [] \<and> toyImagePart s \<noteq> None
            \<and> 600 \<le> clock s - lastSendAt s \<longrightarrow>
          retry_events (trace (sendCommand ct svc s)) =
            retry_events (trace s) @
              [GenerateContent reply_model (controllers s), Sleep (RETRY_BASE_DELAY_MS * 2 ^ 1),
               GenerateContent reply_model (controllers s + 1), Sleep (RETRY_BASE_DELAY_MS * 2 ^ 2),
               GenerateContent reply_model (controllers s + 2)]
          \<and> error (sendCommand ct svc s) = reply_failed_message)
       \<and> (prefix ''image/'' (file_type f) \<and> read_result f \<noteq> None \<longrightarrow>
          retry_events (trace (handleFileChange (Some f) svc s)) =
            retry_events (trace s) @
              [GenerateContent describe_model (controllers s), Sleep (RETRY_BASE_DELAY_MS * 2 ^ 1),
               GenerateContent describe_model (controllers s + 1), Sleep (RETRY_BASE_DELAY_MS * 2 ^ 2),
               GenerateContent describe_model (controllers s + 2)]
          \<and> error (handleFileChange (Some f) svc s) = describe_failed_message)
       \<and> SAFE_RETRY_COUNT + 1 = 3
       \<and> RETRY_BASE_DELAY_MS * 2 ^ 1 = 1600 \<and> RETRY_BASE_DELAY_MS * 2 ^ 2 = 3200"
proof (intro conjI impI)
  assume a: "trim (command_text ct s) \<noteq> [] \<and> toyImagePart s \<noteq> None
            \<and> 600 \<le> clock s - lastSendAt s"
  let ?s0 = "sendCommand_begin (s\<lparr>lastSendAt := clock s\<rparr>)"
  have eq: "sendCommand ct svc s =
      (give_up reply_model reply_failed_message (fst (svc 2))
        (retry_after reply_model (fst (svc 1)) 1 (retry_after reply_model (fst (svc 0)) 0 ?s0)))
        \<lparr>isLoadingResponse := False\<rparr>"
    using a assms by (simp add: sendCommand_accepted sendCommand_loop_all_transient)
  show "retry_events (trace (sendCommand ct svc s)) =
            retry_events (trace s) @
              [GenerateContent reply_model (controllers s), Sleep (RETRY_BASE_DELAY_MS * 2 ^ 1),
               GenerateContent reply_model (controllers s + 1), Sleep (RETRY_BASE_DELAY_MS * 2 ^ 2),
               GenerateContent reply_model (controllers s + 2)]"
    by (simp add: eq trace_give_up trace_retry_after controllers_retry_after
        trace_sendCommand_begin controllers_sendCommand_begin retry_events_def backoff_def)
  show "error (sendCommand ct svc s) = reply_failed_message"
    by (simp add: eq error_give_up)
next
  assume a: "prefix ''image/'' (file_type f) \<and> read_result f \<noteq> None"
  then obtain b64 where b: "base64Encode f = Inr b64"
    using base64Encode_read by blast
  let ?s0 = "handleFileChange_encoded f b64 (elapse (read_ms f) (handleFileChange_begin f s))"
  have eq: "handleFileChange (Some f) svc s =
      (give_up describe_model describe_failed_message (fst (svc 2))
        (retry_after describe_model (fst (svc 1)) 1 (retry_after describe_model (fst (svc 0)) 0 ?s0)))
        \<lparr>isLoadingDescription := False\<rparr>"
    using a b assms by (simp add: handleFileChange_encoded_image describe_loop_all_transient)
  show "retry_events (trace (handleFileChange (Some f) svc s)) =
            retry_events (trace s) @
              [GenerateContent describe_model (controllers s), Sleep (RETRY_BASE_DELAY_MS * 2 ^ 1),
               GenerateContent describe_model (controllers s + 1), Sleep (RETRY_BASE_DELAY_MS * 2 ^ 2),
               GenerateContent describe_model (controllers s + 2)]"
    using retry_events_upload [of f b64 "read_ms f" s]
    by (simp add: eq trace_give_up trace_retry_after controllers_retry_after
        controllers_upload retry_events_def backoff_def)
  show "error (handleFileChange (Some f) svc s) = describe_failed_message"
    by (simp add: eq error_give_up)
qed (simp_all add: SAFE_RETRY_COUNT_def RETRY_BASE_DELAY_MS_def)

theorem transient_failures_use_all_attempts_witness:
  "retry_events (trace (sendCommand (Some ''dance'') (\<lambda>k. (100, Rejected network_error)) (ready_app 1000)))
     = [GenerateContent reply_model 0, Sleep 1600, GenerateContent reply_model 1, Sleep 3200,
        GenerateContent reply_model 2]
   \<and> error (sendCommand (Some ''dance'') (\<lambda>k. (100, Rejected network_error)) (ready_app 1000))
     = reply_failed_message
   \<and> retry_events (trace (handleFileChange (Some bear_photo) (\<lambda>k. (100, Rejected network_error)) (ready_app 1000)))
     = [GenerateContent describe_model 0, Sleep 1600, GenerateContent describe_model 1, Sleep 3200,
        GenerateContent describe_model 2]
   \<and> error (handleFileChange (Some bear_photo) (\<lambda>k. (100, Rejected network_error)) (ready_app 1000))
     = describe_failed_message"
proof -
  have h: "\<forall>k \<le> SAFE_RETRY_COUNT. \<exists>err.
      snd ((\<lambda>k. (100::nat, Rejected network_error)) k) = Rejected err \<and> \<not> isQuotaError err"
    by (simp add: network_error_transient)
  have a: "trim (command_text (Some ''dance'') (ready_app 1000)) \<noteq> []
      \<and> toyImagePart (ready_app 1000) \<noteq> None
      \<and> 600 \<le> clock (ready_app 1000) - lastSendAt (ready_app 1000)"
    by (simp add: command_text_def trim_dance ready_app_def initial_app_def)
  have b: "prefix ''image/'' (file_type bear_photo) \<and> read_result bear_photo \<noteq> None"
    by (simp add: bear_photo_is_image) (simp add: bear_photo_def)
  show ?thesis
    using transient_failures_use_all_attempts
      [OF h, of "Some ''dance''" "ready_app 1000" bear_photo] a b
    by (simp add: ready_app_def initial_app_def retry_events_def RETRY_BASE_DELAY_MS_def
        SAFE_RETRY_COUNT_def)
qed

lemma sendCommand_loop_after_failures:
  assumes "k \<le> SAFE_RETRY_COUNT"
    and "\<forall>j<k. \<exists>e. snd (svc j) = Rejected e \<and> \<not> isQuotaError e"
  shows "sendCommand_loop svc 0 s = sendCommand_loop svc k (after_failures reply_model svc k s)"
  using assms
proof (induction k)
  case 0
  show ?case by simp
next
  case (Suc k)
  from Suc.prems obtain e where e: "snd (svc k) = Rejected e" "\<not> isQuotaError e"
    by blast
  have "sendCommand_loop svc 0 s = sendCommand_loop svc k (after_failures reply_model svc k s)"
    using Suc by simp
  also have "\<dots> = sendCommand_loop svc (k + 1)
      (retry_after reply_model (fst (svc k)) k (after_failures reply_model svc k s))"
    using sendCommand_loop_Continue [of k svc "after_failures reply_model svc k s"] e Suc.prems(1)
    by (simp add: sendCommand_settle_transient retry_after_def)
  finally show ?case by simp
qed

lemma describe_loop_after_failures:
  assumes "k \<le> SAFE_RETRY_COUNT"
    and "\<forall>j<k. \<exists>e. snd (svc j) = Rejected e \<and> \<not> isQuotaError e"
  shows "describe_loop svc 0 s = describe_loop svc k (after_failures describe_model svc k s)"
  using assms
proof (induction k)
  case 0
  show ?case by simp
next
  case (Suc k)
  from Suc.prems obtain e where e: "snd (svc k) = Rejected e" "\<not> isQuotaError e"
    by blast
  have "describe_loop svc 0 s = describe_loop svc k (after_failures describe_model svc k s)"
    using Suc by simp
  also have "\<dots> = describe_loop svc (k + 1)
      (retry_after describe_model (fst (svc k)) k (after_failures describe_model svc k s))"
    using describe_loop_Continue [of k svc "after_failures describe_model svc k s"] e Suc.prems(1)
    by (simp add: describe_settle_transient retry_after_def)
  finally show ?case by simp
qed

lemma calls_append: "calls (xs @ ys) = calls xs + calls ys"
  by (simp add: calls_def)

lemma calls_after_failures:
  "calls (trace (after_failures model svc k s)) = calls (trace s) + k"
  by (induction k) (simp_all add: trace_retry_after calls_append, simp add: calls_def)

lemma controllers_after_failures:
  "controllers (after_failures model svc k s) = controllers s + k"
  by (induction k) (simp_all add: controllers_retry_after)

lemma trace_stop_fatal:
  "trace (stop_fatal model ms s) =
     trace s @ [GenerateContent model (controllers s), InitializeAudio, PlaySound Error]"
  by (simp add: stop_fatal_def effect_defs Let_def)

lemma error_stop_fatal: "error (stop_fatal model ms s) = quota_message"
  by (simp add: stop_fatal_def effect_defs Let_def)

lemma sendCommand_loop_fatal:
  assumes "attempt \<le> SAFE_RETRY_COUNT" and "snd (svc attempt) = Rejected err"
    and "isQuotaError err"
  shows "sendCommand_loop svc attempt s = stop_fatal reply_model (fst (svc attempt)) s"
  using sendCommand_loop_Break [of attempt svc s] assms
  by (simp add: sendCommand_settle_fatal stop_fatal_def)

lemma describe_loop_fatal:
  assumes "attempt \<le> SAFE_RETRY_COUNT" and "snd (svc attempt) = Rejected err"
    and "isQuotaError err"
  shows "describe_loop svc attempt s = stop_fatal describe_model (fst (svc attempt)) s"
  using describe_loop_Break [of attempt svc s] assms
  by (simp add: describe_settle_fatal stop_fatal_def)

lemma same_session_refl: "same_session s s"
  by (simp add: same_session_def)

lemma same_session_trans: "same_session a b \<Longrightarrow> same_session b c \<Longrightarrow> same_session a c"
  by (simp add: same_session_def)

lemma same_session_retry_after: "same_session s (retry_after model ms attempt s)"
  by (simp add: same_session_def retry_after_def effect_defs Let_def)

lemma same_session_after_failures: "same_session s (after_failures model svc k s)"
proof (induction k)
  case 0
  show ?case by (simp add: same_session_refl)
next
  case (Suc k)
  then show ?case
    using same_session_retry_after same_session_trans by fastforce
qed

lemma calls_sendCommand_begin: "calls (trace (sendCommand_begin s)) = calls (trace s)"
  by (simp add: trace_sendCommand_begin calls_def)

lemma calls_startOver: "calls (trace (startOver s)) = calls (trace s)"
  by (simp add: startOver_def effect_defs calls_def Let_def split: option.splits)

lemma calls_upload:
  "calls (trace (handleFileChange_encoded f b64 (elapse ms (handleFileChange_begin f s))))
     = calls (trace s)"
  using calls_startOver [of s]
  by (simp add: handleFileChange_encoded_def handleFileChange_begin_def effect_defs
      calls_def Let_def)

text \<open>
  Claim C3. When the call of an iteration fails with a fatal error, after any number
  \<open>k\<close> of transient failures, the handler stops at once: the daily-limit message is
  in the error notice, \<open>k + 1\<close> calls have been made, and the failing call is
  followed by the notice alone, with no sleep and no further call, whatever the service
  would have answered later.
\<close>

theorem fatal_error_is_never_retried:
  assumes "k \<le> SAFE_RETRY_COUNT"
    and "\<forall>j<k. \<exists>e. snd (svc j) = Rejected e \<and> \<not> isQuotaError e"
    and "snd (svc k) = Rejected err" and "isQuotaError err"
  shows "(trim (command_text ct s) \<noteq> [] \<and> toyImagePart s \<noteq> None
            \<and> 600 \<le> clock s - lastSendAt s \<longrightarrow>
          error (sendCommand ct svc s) = quota_message
          \<and> calls (trace (sendCommand ct svc s)) = calls (trace s) + k + 1
          \<and> (\<exists>pre. trace (sendCommand ct svc s) =
                  pre @ [GenerateContent reply_model (controllers s + k),
                         InitializeAudio, PlaySound Error]))
       \<and> (prefix ''image/'' (file_type f) \<and> read_result f \<noteq> None \<longrightarrow>
          error (handleFileChange (Some f) svc s) = quota_message
          \<and> calls (trace (handleFileChange (Some f) svc s)) = calls (trace s) + k + 1
          \<and> (\<exists>pre. trace (handleFileChange (Some f) svc s) =
                  pre @ [GenerateContent describe_model (controllers s + k),
                         InitializeAudio, PlaySound Error]))"
proof (intro conjI impI)
  assume a: "trim (command_text ct s) \<noteq> [] \<and> toyImagePart s \<noteq> None
            \<and> 600 \<le> clock s - lastSendAt s"
  let ?s0 = "sendCommand_begin (s\<lparr>lastSendAt := clock s\<rparr>)"
  have eq: "sendCommand ct svc s =
      (stop_fatal reply_model (fst (svc k)) (after_failures reply_model svc k ?s0))
        \<lparr>isLoadingResponse := False\<rparr>"
    using a assms
    by (simp add: sendCommand_accepted sendCommand_loop_after_failures sendCommand_loop_fatal)
  show "error (sendCommand ct svc s) = quota_message"
    by (simp add: eq error_stop_fatal)
  show "calls (trace (sendCommand ct svc s)) = calls (trace s) + k + 1"
    by (simp add: eq trace_stop_fatal calls_append calls_after_failures calls_sendCommand_begin)
       (simp add: calls_def)
  show "\<exists>pre. trace (sendCommand ct svc s) =
                  pre @ [GenerateContent reply_model (controllers s + k),
                         InitializeAudio, PlaySound Error]"
    by (simp add: eq trace_stop_fatal controllers_after_failures controllers_sendCommand_begin)
next
  assume a: "prefix ''image/'' (file_type f) \<and> read_result f \<noteq> None"
  then obtain b64 where b: "base64Encode f = Inr b64"
    using base64Encode_read by blast
  let ?s0 = "handleFileChange_encoded f b64 (elapse (read_ms f) (handleFileChange_begin f s))"
  have eq: "handleFileChange (Some f) svc s =
      (stop_fatal describe_model (fst (svc k)) (after_failures describe_model svc k ?s0))
        \<lparr>isLoadingDescription := False\<rparr>"
    using a b assms
    by (simp add: handleFileChange_encoded_image describe_loop_after_failures describe_loop_fatal)
  show "error (handleFileChange (Some f) svc s) = quota_message"
    by (simp add: eq error_stop_fatal)
  show "calls (trace (handleFileChange (Some f) svc s)) = calls (trace s) + k + 1"
    by (simp add: eq trace_stop_fatal calls_append calls_after_failures calls_upload)
       (simp add: calls_def)
  show "\<exists>pre. trace (handleFileChange (Some f) svc s) =
                  pre @ [GenerateContent describe_model (controllers s + k),
                         InitializeAudio, PlaySound Error]"
    by (simp add: eq trace_stop_fatal controllers_after_failures controllers_upload)
qed

theorem fatal_error_is_never_retried_witness:
  "error (sendCommand (Some ''dance'')
            (\<lambda>k. if k = 1 then (100, Rejected quota_error) else (100, Rejected network_error))
            (ready_app 1000)) = quota_message
   \<and> calls (trace (sendCommand (Some ''dance'')
            (\<lambda>k. if k = 1 then (100, Rejected quota_error) else (100, Rejected network_error))
            (ready_app 1000))) = 2
   \<and> error (handleFileChange (Some bear_photo)
            (\<lambda>k. if k = 1 then (100, Rejected quota_error) else (100, Rejected network_error))
            (ready_app 1000)) = quota_message
   \<and> calls (trace (handleFileChange (Some bear_photo)
            (\<lambda>k. if k = 1 then (100, Rejected quota_error) else (100, Rejected network_error))
            (ready_app 1000))) = 2"
proof -
  let ?svc = "\<lambda>k::nat. if k = 1 then (100::nat, Rejected quota_error)
                        else (100, Rejected network_error)"
  have a: "(1::nat) \<le> SAFE_RETRY_COUNT"
    by (simp add: SAFE_RETRY_COUNT_def)
  have b: "\<forall>j<1. \<exists>e. snd (?svc j) = Rejected e \<and> \<not> isQuotaError e"
    by (simp add: network_error_transient)
  have c: "snd (?svc 1) = Rejected quota_error"
    by simp
  have d: "trim (command_text (Some ''dance'') (ready_app 1000)) \<noteq> []
      \<and> toyImagePart (ready_app 1000) \<noteq> None
      \<and> 600 \<le> clock (ready_app 1000) - lastSendAt (ready_app 1000)"
    by (simp add: command_text_def trim_dance ready_app_def initial_app_def)
  have e: "prefix ''image/'' (file_type bear_photo) \<and> read_result bear_photo \<noteq> None"
    by (simp add: bear_photo_is_image) (simp add: bear_photo_def)
  show ?thesis
    using fatal_error_is_never_retried
      [OF a b c quota_error_fatal, of "Some ''dance''" "ready_app 1000" bear_photo] d e
    by (simp add: ready_app_def initial_app_def calls_def)
qed

lemma describe_loop_resolved:
  assumes "attempt \<le> SAFE_RETRY_COUNT" and "snd (svc attempt) = Resolved (Some resp)"
  shows "describe_loop svc attempt s = describe_done resp (fst (svc attempt)) s"
  using describe_loop_Break [of attempt svc s] assms
  by (simp add: describe_settle_def describe_result_def describe_done_def)

lemma same_session_give_up:
  "same_session s ((give_up model msg ms s)\<lparr>error := []\<rparr>)"
  by (simp add: same_session_def give_up_def effect_defs Let_def)

lemma same_session_stop_fatal:
  "same_session s ((stop_fatal model ms s)\<lparr>error := []\<rparr>)"
  by (simp add: same_session_def stop_fatal_def effect_defs Let_def)

lemma same_session_describe_done:
  "same_session s ((describe_done resp ms s)\<lparr>toyDescription := toyDescription s\<rparr>)"
  by (simp add: same_session_def describe_done_def describe_resolved_def effect_defs Let_def)

lemma toyDescription_describe_done:
  "toyDescription (describe_done resp ms s) =
     (case resp_text resp of
        None \<Rightarrow> placeholder_description
      | Some t \<Rightarrow> if t = [] then placeholder_description else t)"
  by (simp add: describe_done_def describe_resolved_def effect_defs Let_def split: option.splits)

lemma trace_describe_done:
  "trace (describe_done resp ms s) =
     trace s @ [GenerateContent describe_model (controllers s), PlaySound Success]"
  by (simp add: describe_done_def describe_resolved_def effect_defs Let_def)

text \<open>The state in which an accepted upload enters the description loop.\<close>

lemma upload_state:
  fixes f b64 s
  defines "s0 \<equiv> handleFileChange_encoded f b64 (elapse (read_ms f) (handleFileChange_begin f s))"
  shows "toyImage s0 = Some (object_url f)"
    and "toyImagePart s0 = Some \<lparr>data = Some b64, mimeType = Some (file_type f)\<rparr>"
    and "error s0 = []"
    and "isLoadingResponse s0 = isLoadingResponse s"
    and "toyDescription s0 = []"
    and "toyImageObjectUrlRef s0 = Some (object_url f)"
  unfolding s0_def
  by (simp_all add: handleFileChange_encoded_def handleFileChange_begin_def startOver_def
      effect_defs Let_def split: option.splits)

section \<open>Describing the photo\<close>

text \<open>
  Claim C10. When the description call resolves, at the first attempt or after transient
  failures, with a response whose text is absent or empty, the upload ends with the
  placeholder "A friendly toy! (Could not get a detailed description.)" as the toy's
  description, the image kept, the loading flag cleared and no error notice: the session
  is Ready, and no further call is made.
\<close>

theorem empty_description_gets_placeholder:
  assumes "prefix ''image/'' (file_type f)" and "read_result f \<noteq> None"
    and "k \<le> SAFE_RETRY_COUNT"
    and "\<forall>j<k. \<exists>e. snd (svc j) = Rejected e \<and> \<not> isQuotaError e"
    and "snd (svc k) = Resolved (Some resp)"
    and "resp_text resp = None \<or> resp_text resp = Some []"
  shows "toyDescription (handleFileChange (Some f) svc s) =
           ''A friendly toy! (Could not get a detailed description.)''
       \<and> toyImage (handleFileChange (Some f) svc s) = Some (object_url f)
       \<and> toyImagePart (handleFileChange (Some f) svc s) \<noteq> None
       \<and> \<not> isLoadingDescription (handleFileChange (Some f) svc s)
       \<and> error (handleFileChange (Some f) svc s) = []
       \<and> calls (trace (handleFileChange (Some f) svc s)) = calls (trace s) + k + 1
       \<and> (\<not> isLoadingResponse s \<longrightarrow> sessionState (handleFileChange (Some f) svc s) = Ready)"
proof -
  obtain b64 where b: "base64Encode f = Inr b64"
    using assms(2) base64Encode_read by blast
  define s0 where
    "s0 = handleFileChange_encoded f b64 (elapse (read_ms f) (handleFileChange_begin f s))"
  define s1 where "s1 = after_failures describe_model svc k s0"
  define s2 where "s2 = describe_done resp (fst (svc k)) s1"
  have eq: "handleFileChange (Some f) svc s = s2\<lparr>isLoadingDescription := False\<rparr>"
    using assms b
    by (simp add: handleFileChange_encoded_image describe_loop_after_failures
        describe_loop_resolved s0_def s1_def s2_def)
  have f1: "same_session s0 s1"
    unfolding s1_def by (rule same_session_after_failures)
  have f2: "same_session s1 (s2\<lparr>toyDescription := toyDescription s1\<rparr>)"
    unfolding s2_def by (rule same_session_describe_done)
  have f3: "same_session s0 (s2\<lparr>toyDescription := toyDescription s1\<rparr>)"
    using f1 f2 by (rule same_session_trans)
  have d: "toyDescription s2 = placeholder_description"
    using assms(6) unfolding s2_def by (auto simp: toyDescription_describe_done)
  have c: "calls (trace s2) = calls (trace s) + k + 1"
    unfolding s2_def s1_def s0_def
    by (simp add: trace_describe_done calls_append calls_after_failures calls_upload)
       (simp add: calls_def)
  have u: "toyImage s0 = Some (object_url f)" "toyImagePart s0 \<noteq> None" "error s0 = []"
    "isLoadingResponse s0 = isLoadingResponse s"
    unfolding s0_def by (simp_all add: upload_state)
  show ?thesis
    using f3 d c u
    by (simp add: eq same_session_def sessionState_def placeholder_description_def)
qed

theorem empty_description_gets_placeholder_witness:
  "toyDescription (handleFileChange (Some bear_photo)
      (\<lambda>k. if k = 1 then (100, Resolved (Some (text_response []))) else (100, Rejected network_error))
      (initial_app 1000)) = ''A friendly toy! (Could not get a detailed description.)''
   \<and> sessionState (handleFileChange (Some bear_photo)
      (\<lambda>k. if k = 1 then (100, Resolved (Some (text_response []))) else (100, Rejected network_error))
      (initial_app 1000)) = Ready"
proof -
  let ?svc = "\<lambda>k::nat. if k = 1 then (100::nat, Resolved (Some (text_response [])))
                        else (100, Rejected network_error)"
  have a: "(1::nat) \<le> SAFE_RETRY_COUNT"
    by (simp add: SAFE_RETRY_COUNT_def)
  have b: "\<forall>j<1. \<exists>e. snd (?svc j) = Rejected e \<and> \<not> isQuotaError e"
    by (simp add: network_error_transient)
  have c: "snd (?svc 1) = Resolved (Some (text_response []))"
    by simp
  have d: "resp_text (text_response []) = None \<or> resp_text (text_response []) = Some []"
    by (simp add: text_response_def)
  have e: "read_result bear_photo \<noteq> None"
    by (simp add: bear_photo_def)
  show ?thesis
    using empty_description_gets_placeholder
      [OF bear_photo_is_image e a b c d, of "initial_app 1000"]
    by (simp add: initial_app_def)
qed

text \<open>
  Claim C7. After a description fetch that fails, with retries exhausted or fatally,
  \<open>handleFileChange\<close> shows the error notice and clears the loading flag, and the
  captured image stays: \<open>toyImage\<close>, \<open>toyImagePart\<close> and the object URL are
  still set, so the session is not Idle. Only a failure to read the file clears the
  image preview.
\<close>

theorem failed_description_keeps_image:
  assumes "prefix ''image/'' (file_type f)" and "read_result f \<noteq> None"
    and "(\<forall>k \<le> SAFE_RETRY_COUNT. \<exists>e. snd (svc k) = Rejected e \<and> \<not> isQuotaError e)
       \<or> (\<exists>k \<le> SAFE_RETRY_COUNT.
            (\<forall>j<k. \<exists>e. snd (svc j) = Rejected e \<and> \<not> isQuotaError e)
            \<and> (\<exists>err. snd (svc k) = Rejected err \<and> isQuotaError err))"
  shows "toyImage (handleFileChange (Some f) svc s) = Some (object_url f)
       \<and> toyImagePart (handleFileChange (Some f) svc s) \<noteq> None
       \<and> toyImageObjectUrlRef (handleFileChange (Some f) svc s) = Some (object_url f)
       \<and> error (handleFileChange (Some f) svc s) \<in> {describe_failed_message, quota_message}
       \<and> \<not> isLoadingDescription (handleFileChange (Some f) svc s)
       \<and> sessionState (handleFileChange (Some f) svc s) \<noteq> Idle
       \<and> (\<not> isLoadingResponse s \<longrightarrow> sessionState (handleFileChange (Some f) svc s) = Ready)"
proof -
  obtain b64 where b: "base64Encode f = Inr b64"
    using assms(2) base64Encode_read by blast
  define s0 where
    "s0 = handleFileChange_encoded f b64 (elapse (read_ms f) (handleFileChange_begin f s))"
  have u: "toyImage s0 = Some (object_url f)" "toyImagePart s0 \<noteq> None"
    "toyImageObjectUrlRef s0 = Some (object_url f)" "isLoadingResponse s0 = isLoadingResponse s"
    unfolding s0_def by (simp_all add: upload_state)
  from assms(3) show ?thesis
  proof
    assume t: "\<forall>k \<le> SAFE_RETRY_COUNT. \<exists>e. snd (svc k) = Rejected e \<and> \<not> isQuotaError e"
    define s1 where "s1 = retry_after describe_model (fst (svc 1)) 1
        (retry_after describe_model (fst (svc 0)) 0 s0)"
    define s2 where "s2 = give_up describe_model describe_failed_message (fst (svc 2)) s1"
    have eq: "handleFileChange (Some f) svc s = s2\<lparr>isLoadingDescription := False\<rparr>"
      using assms(1) b t
      by (simp add: handleFileChange_encoded_image describe_loop_all_transient s0_def s1_def
          s2_def)
    have "same_session s0 s1"
      unfolding s1_def using same_session_retry_after same_session_trans by blast
    moreover have "same_session s1 (s2\<lparr>error := []\<rparr>)"
      unfolding s2_def by (rule same_session_give_up)
    ultimately have "same_session s0 (s2\<lparr>error := []\<rparr>)"
      by (rule same_session_trans)
    moreover have "error s2 = describe_failed_message"
      unfolding s2_def by (rule error_give_up)
    ultimately show ?thesis
      using u by (simp add: eq same_session_def sessionState_def)
  next
    assume "\<exists>k \<le> SAFE_RETRY_COUNT.
            (\<forall>j<k. \<exists>e. snd (svc j) = Rejected e \<and> \<not> isQuotaError e)
            \<and> (\<exists>err. snd (svc k) = Rejected err \<and> isQuotaError err)"
    then obtain k err where k: "k \<le> SAFE_RETRY_COUNT"
      "\<forall>j<k. \<exists>e. snd (svc j) = Rejected e \<and> \<not> isQuotaError e"
      "snd (svc k) = Rejected err" "isQuotaError err"
      by blast
    define s1 where "s1 = after_failures describe_model svc k s0"
    define s2 where "s2 = stop_fatal describe_model (fst (svc k)) s1"
    have eq: "handleFileChange (Some f) svc s = s2\<lparr>isLoadingDescription := False\<rparr>"
      using assms(1) b k
      by (simp add: handleFileChange_encoded_image describe_loop_after_failures
          describe_loop_fatal s0_def s1_def s2_def)
    have "same_session s0 s1"
      unfolding s1_def by (rule same_session_after_failures)
    moreover have "same_session s1 (s2\<lparr>error := []\<rparr>)"
      unfolding s2_def by (rule same_session_stop_fatal)
    ultimately have "same_session s0 (s2\<lparr>error := []\<rparr>)"
      by (rule same_session_trans)
    moreover have "error s2 = quota_message"
      unfolding s2_def by (rule error_stop_fatal)
    ultimately show ?thesis
      using u by (simp add: eq same_session_def sessionState_def)
  qed
qed

theorem failed_description_keeps_image_witness:
  "toyImage (handleFileChange (Some bear_photo) (\<lambda>k. (100, Rejected network_error))
      (initial_app 1000)) = Some ''blob:bear''
   \<and> sessionState (handleFileChange (Some bear_photo) (\<lambda>k. (100, Rejected network_error))
      (initial_app 1000)) = Ready
   \<and> toyImage (handleFileChange (Some bear_photo) (\<lambda>k. (100, Rejected quota_error))
      (initial_app 1000)) = Some ''blob:bear''"
proof -
  have e: "read_result bear_photo \<noteq> None"
    by (simp add: bear_photo_def)
  have a: "(\<forall>k \<le> SAFE_RETRY_COUNT. \<exists>e.
              snd ((\<lambda>k. (100::nat, Rejected network_error)) k) = Rejected e \<and> \<not> isQuotaError e)
       \<or> (\<exists>k \<le> SAFE_RETRY_COUNT.
            (\<forall>j<k. \<exists>e. snd ((\<lambda>k. (100::nat, Rejected network_error)) j) = Rejected e
                \<and> \<not> isQuotaError e)
            \<and> (\<exists>err. snd ((\<lambda>k. (100::nat, Rejected network_error)) k) = Rejected err
                \<and> isQuotaError err))"
    by (simp add: network_error_transient)
  have b: "(\<forall>k \<le> SAFE_RETRY_COUNT. \<exists>e.
              snd ((\<lambda>k. (100::nat, Rejected quota_error)) k) = Rejected e \<and> \<not> isQuotaError e)
       \<or> (\<exists>k \<le> SAFE_RETRY_COUNT.
            (\<forall>j<k. \<exists>e. snd ((\<lambda>k. (100::nat, Rejected quota_error)) j) = Rejected e
                \<and> \<not> isQuotaError e)
            \<and> (\<exists>err. snd ((\<lambda>k. (100::nat, Rejected quota_error)) k) = Rejected err
                \<and> isQuotaError err))"
    using quota_error_fatal by auto
  show ?thesis
    using failed_description_keeps_image [OF bear_photo_is_image e a, of "initial_app 1000"]
      failed_description_keeps_image [OF bear_photo_is_image e b, of "initial_app 1000"]
    by (simp add: bear_photo_def initial_app_def)
qed

section \<open>The response parser\<close>

lemma first_image_data_find:
  "first_image_data ps = (case find carries_payload ps of None \<Rightarrow> [] | Some p \<Rightarrow> payload p)"
  by (induction ps) (auto simp: carries_payload_def payload_def split: option.splits)

lemma find_first_match:
  assumes "P p" and "\<forall>q \<in> set pre. \<not> P q"
  shows "find P (pre @ p # post) = Some p"
  using assms by (induction pre) simp_all

lemma sendCommand_loop_resolved:
  assumes "attempt \<le> SAFE_RETRY_COUNT" and "snd (svc attempt) = Resolved r"
  shows "sendCommand_loop svc attempt s = sendCommand_done r (fst (svc attempt)) s"
  using sendCommand_loop_Break [of attempt svc s] assms
  by (simp add: sendCommand_settle_def sendCommand_done_def)

lemma sendCommand_done_fields:
  fixes resp ms s
  defines "s' \<equiv> sendCommand_done (Some resp) ms s"
  defines "txt \<equiv> (case resp_text resp of None \<Rightarrow> [] | Some t \<Rightarrow> trim t)"
  defines "img \<equiv> find carries_payload (response_parts resp)"
  shows "toyReply s' = (if txt = [] then toyReply s else txt)"
    and "actionImage s' =
           (case img of None \<Rightarrow> actionImage s
            | Some p \<Rightarrow> Some (''data:image/png;base64,'' @ payload p))"
    and "txt = [] \<and> img = None \<Longrightarrow> error s' = parser_message"
    and "txt \<noteq> [] \<or> img \<noteq> None \<Longrightarrow> error s = [] \<Longrightarrow> error s' = []"
    and "calls (trace s') = calls (trace s) + 1"
proof -
  have p: "img = None \<Longrightarrow> first_image_data (response_parts resp) = []"
    by (simp add: first_image_data_find img_def)
  have q: "img = Some x \<Longrightarrow> first_image_data (response_parts resp) = payload x \<and> payload x \<noteq> []" for x
    unfolding img_def using find_Some_iff [of carries_payload "response_parts resp" x]
    by (auto simp: first_image_data_find carries_payload_def)
  show "toyReply s' = (if txt = [] then toyReply s else txt)"
    by (cases img)
       (auto simp: s'_def txt_def sendCommand_done_def sendCommand_resolved_def effect_defs
          Let_def p q split: option.splits)
  show "actionImage s' =
           (case img of None \<Rightarrow> actionImage s
            | Some p \<Rightarrow> Some (''data:image/png;base64,'' @ payload p))"
    by (cases img)
       (auto simp: s'_def txt_def sendCommand_done_def sendCommand_resolved_def effect_defs
          Let_def p q split: option.splits)
  show "txt = [] \<and> img = None \<Longrightarrow> error s' = parser_message"
    by (auto simp: s'_def txt_def sendCommand_done_def sendCommand_resolved_def effect_defs
          Let_def p split: option.splits)
  show "txt \<noteq> [] \<or> img \<noteq> None \<Longrightarrow> error s = [] \<Longrightarrow> error s' = []"
    by (cases img)
       (auto simp: s'_def txt_def sendCommand_done_def sendCommand_resolved_def effect_defs
          Let_def p q split: option.splits)
  show "calls (trace s') = calls (trace s) + 1"
    by (cases img)
       (auto simp: s'_def txt_def sendCommand_done_def sendCommand_resolved_def effect_defs
          Let_def p q calls_def split: option.splits)
qed

lemma messages_distinct:
  "parser_message \<noteq> reply_failed_message" "parser_message \<noteq> quota_message"
  "parser_message \<noteq> describe_failed_message" "reply_failed_message \<noteq> quota_message"
  by (simp_all add: parser_message_def reply_failed_message_def quota_message_def
      describe_failed_message_def)

lemma sendCommand_begin_fields:
  "toyReply (sendCommand_begin s) = []" "actionImage (sendCommand_begin s) = None"
  "error (sendCommand_begin s) = []"
  by (simp_all add: sendCommand_begin_def effect_defs)

text \<open>
  Claim C4. When the call of an accepted command resolves with a response, the reply
  stored is the response's top-level text, trimmed, and stays empty when that text is
  absent or blank; the action image stored is the data URL of the first part, in order,
  that carries a non-empty inline payload, whatever parts follow it, and none when no
  part does; when neither is found the error notice is the parser's own message, which
  differs from the messages for failed and for quota-limited calls.
\<close>

theorem response_parser:
  assumes "trim (command_text ct s) \<noteq> []" and "toyImagePart s \<noteq> None"
    and "600 \<le> clock s - lastSendAt s"
    and "snd (svc 0) = Resolved (Some resp)"
    and "txt = (case resp_text resp of None \<Rightarrow> [] | Some t \<Rightarrow> trim t)"
    and "img = find carries_payload (response_parts resp)"
  shows "toyReply (sendCommand ct svc s) = txt
       \<and> actionImage (sendCommand ct svc s) =
           map_option (\<lambda>p. ''data:image/png;base64,'' @ payload p) img
       \<and> (\<forall>pre p post. response_parts resp = pre @ p # post \<and> carries_payload p
             \<and> (\<forall>q \<in> set pre. \<not> carries_payload q) \<longrightarrow>
           actionImage (sendCommand ct svc s) = Some (''data:image/png;base64,'' @ payload p))
       \<and> (txt = [] \<and> img = None \<longrightarrow> error (sendCommand ct svc s) = parser_message)
       \<and> (txt \<noteq> [] \<or> img \<noteq> None \<longrightarrow> error (sendCommand ct svc s) = [])
       \<and> parser_message \<noteq> reply_failed_message \<and> parser_message \<noteq> quota_message
       \<and> calls (trace (sendCommand ct svc s)) = calls (trace s) + 1"
proof -
  let ?s0 = "sendCommand_begin (s\<lparr>lastSendAt := clock s\<rparr>)"
  have eq: "sendCommand ct svc s =
      (sendCommand_done (Some resp) (fst (svc 0)) ?s0)\<lparr>isLoadingResponse := False\<rparr>"
    using assms(1-4)
    by (simp add: sendCommand_accepted sendCommand_loop_resolved SAFE_RETRY_COUNT_def)
  have r: "toyReply (sendCommand ct svc s) = txt"
    by (simp add: eq sendCommand_done_fields(1) sendCommand_begin_fields assms(5))
  have i: "actionImage (sendCommand ct svc s) =
           map_option (\<lambda>p. ''data:image/png;base64,'' @ payload p) img"
    by (cases img)
       (simp_all add: eq sendCommand_done_fields(2) sendCommand_begin_fields assms(6) [symmetric])
  have l: "\<forall>pre p post. response_parts resp = pre @ p # post \<and> carries_payload p
             \<and> (\<forall>q \<in> set pre. \<not> carries_payload q) \<longrightarrow>
           actionImage (sendCommand ct svc s) = Some (''data:image/png;base64,'' @ payload p)"
    using i by (auto simp: assms(6) find_first_match)
  have e1: "txt = [] \<and> img = None \<longrightarrow> error (sendCommand ct svc s) = parser_message"
    using sendCommand_done_fields(3) [where resp = resp and ms = "fst (svc 0)" and s = ?s0]
    by (simp add: eq assms(5,6))
  have e2: "txt \<noteq> [] \<or> img \<noteq> None \<longrightarrow> error (sendCommand ct svc s) = []"
    using sendCommand_done_fields(4) [where resp = resp and ms = "fst (svc 0)" and s = ?s0]
    by (simp add: eq assms(5,6) sendCommand_begin_fields)
  have c: "calls (trace (sendCommand ct svc s)) = calls (trace s) + 1"
    by (simp add: eq sendCommand_done_fields(5) calls_sendCommand_begin)
  show ?thesis
    using r i l e1 e2 c messages_distinct by blast
qed

lemma whee_response_text:
  "(case resp_text whee_response of None \<Rightarrow> [] | Some t \<Rightarrow> trim t) = ''Whee!''"
  by code_simp

lemma whee_response_image:
  "find carries_payload (response_parts whee_response) = Some (image_part ''IMG1'')"
  by code_simp

lemma ready_app_accepts:
  "trim (command_text (Some ''dance'') (ready_app 1000)) \<noteq> []"
  "toyImagePart (ready_app 1000) \<noteq> None"
  "600 \<le> clock (ready_app 1000) - lastSendAt (ready_app 1000)"
  by (simp_all add: command_text_def trim_dance ready_app_def initial_app_def)

theorem response_parser_witness:
  "toyReply (sendCommand (Some ''dance'') (\<lambda>k. (100, Resolved (Some whee_response)))
      (ready_app 1000)) = ''Whee!''
   \<and> actionImage (sendCommand (Some ''dance'') (\<lambda>k. (100, Resolved (Some whee_response)))
      (ready_app 1000)) = Some ''data:image/png;base64,IMG1''"
proof -
  have a: "snd ((\<lambda>k::nat. (100::nat, Resolved (Some whee_response))) 0)
      = Resolved (Some whee_response)"
    by simp
  have p: "payload (image_part ''IMG1'') = ''IMG1''"
    by (simp add: payload_def image_part_def)
  show ?thesis
    using response_parser [OF ready_app_accepts(1) ready_app_accepts(2) ready_app_accepts(3) a
        whee_response_text [symmetric] whee_response_image [symmetric]]
    by (simp add: p)
qed

section \<open>The guards of \<open>sendCommand\<close>\<close>

declare strip_start.simps [simp del]

lemma codes_prefix_free:
  "\<forall>a \<in> set js_whitespace_codes. \<forall>b \<in> set js_whitespace_codes. prefix a b \<longrightarrow> a = b"
  by code_simp

lemma codes_nonempty: "\<forall>a \<in> set js_whitespace_codes. a \<noteq> []"
  by code_simp

lemma strip_start_code:
  assumes "w \<in> set js_whitespace_codes"
  shows "strip_start js_whitespace_codes (w @ s) = strip_start js_whitespace_codes s"
proof -
  let ?P = "\<lambda>v. v \<noteq> [] \<and> prefix v (w @ s)"
  have "?P w" using assms codes_nonempty by simp
  then obtain v where v: "find ?P js_whitespace_codes = Some v"
    using assms by (cases "find ?P js_whitespace_codes") (auto simp: find_None_iff)
  then have m: "v \<in> set js_whitespace_codes" "prefix v (w @ s)"
    by (auto simp: find_Some_iff)
  have "prefix v w \<or> prefix w v"
    using m(2) prefix_same_cases [of v "w @ s" w] by auto
  then have "v = w"
    using codes_prefix_free assms m(1) by blast
  then show ?thesis
    using v by (subst strip_start.simps) simp
qed

lemma strip_start_Nil: "strip_start ws [] = []"
  by (subst strip_start.simps) (auto split: option.splits simp: find_Some_iff)

lemma whitespace_only_trim: "whitespace_only s \<Longrightarrow> trim s = []"
proof -
  assume "whitespace_only s"
  then have "strip_start js_whitespace_codes s = []"
    by (induction rule: whitespace_only.induct) (simp_all add: strip_start_Nil strip_start_code)
  then show ?thesis
    by (simp add: trim_def strip_start_Nil)
qed

text \<open>
  The guards read the render that created the handler: a command whose text is empty or
  made of white space only, or whose render holds no image part, returns the state as it
  was, effects included. For the handler of the latest render that render is the
  current state.
\<close>

lemma guarded_command_is_noop:
  assumes "whitespace_only (command_text ct r) \<or> toyImagePart r = None"
  shows "sendCommand_of r ct svc s = s"
proof -
  have "trim (command_text ct r) = [] \<or> toyImagePart r = None"
    using assms whitespace_only_trim [of "command_text ct r"] by auto
  then show ?thesis
    by (auto simp: sendCommand_of_def Let_def)
qed

lemma latest_handler_guarded_command_is_noop:
  assumes "whitespace_only (command_text ct s) \<or> toyImagePart s = None"
  shows "sendCommand ct svc s = s"
  using assms by (simp add: sendCommand_def guarded_command_is_noop)

lemma lastSendAt_settle:
  "sendCommand_settle out attempt s = Break s' \<Longrightarrow> lastSendAt s' = lastSendAt s"
  "sendCommand_settle out attempt s = Continue s' \<Longrightarrow> lastSendAt s' = lastSendAt s"
  by (auto simp: sendCommand_settle_def sendCommand_resolved_def effect_defs Let_def
      split: outcome.splits if_splits option.splits)

lemma lastSendAt_attempt:
  "lastSendAt (elapse ms (begin_attempt model s)) = lastSendAt s"
  by (simp add: effect_defs Let_def)

lemma lastSendAt_sendCommand_loop:
  "lastSendAt (sendCommand_loop svc attempt s) = lastSendAt s"
proof (induction svc attempt s rule: sendCommand_loop.induct)
  case (1 svc attempt s)
  let ?r = "sendCommand_settle (snd (svc attempt)) attempt
              (elapse (fst (svc attempt)) (begin_attempt reply_model s))"
  show ?case
  proof (cases "attempt \<le> SAFE_RETRY_COUNT")
    case False
    then show ?thesis by (subst sendCommand_loop.simps) simp
  next
    case True
    show ?thesis
    proof (cases ?r)
      case (Break s')
      then show ?thesis
        using True lastSendAt_settle(1) [OF Break]
        by (simp add: sendCommand_loop_Break lastSendAt_attempt)
    next
      case (Continue s')
      then show ?thesis
        using True lastSendAt_settle(2) [OF Continue] "1.IH" [OF True Continue]
        by (simp add: sendCommand_loop_Continue lastSendAt_attempt)
    qed
  qed
qed

text \<open>
  The handler of the latest render: an accepted submission records its time in
  \<open>lastSendAt\<close>, and a submission made through it less than 600 milliseconds later,
  in any state in which no other submission has been accepted since, returns the state
  as it was.
\<close>

lemma latest_handler_debounce:
  assumes "trim (command_text ct1 s) \<noteq> []" and "toyImagePart s \<noteq> None"
    and "600 \<le> clock s - lastSendAt s"
    and "lastSendAt s2 = lastSendAt (sendCommand ct1 svc1 s)"
    and "clock s2 - clock s < 600"
  shows "lastSendAt (sendCommand ct1 svc1 s) = clock s \<and> sendCommand ct2 svc2 s2 = s2"
proof -
  have a: "lastSendAt (sendCommand ct1 svc1 s) = clock s"
    using assms(1-3)
    by (simp add: sendCommand_accepted lastSendAt_sendCommand_loop sendCommand_begin_def
        effect_defs)
  then have "clock s2 - lastSendAt s2 < 600"
    using assms(4,5) by simp
  then have "sendCommand ct2 svc2 s2 = s2"
    by (simp add: sendCommand_def sendCommand_of_def canSendNow_def Let_def)
  with a show ?thesis by simp
qed

section \<open>The error notice\<close>

text \<open>
  A notice raised four seconds after another one is still displayed 1999 milliseconds
  later and gone at 2000: the first notice's timer clears it.
\<close>

theorem second_notice_is_cut_short:
  "error (elapse 1999 (handleError ''second'' (elapse 4000 (handleError ''first'' (initial_app 0)))))
     = ''second''
   \<and> error (elapse 2000 (handleError ''second'' (elapse 4000 (handleError ''first'' (initial_app 0)))))
     = []"
  by (simp add: effect_defs initial_app_def Let_def)

text \<open>
  Claim C8, as the code has it. \<open>handleError\<close> overwrites the notice and adds a
  timer due 6 seconds later, leaving the pending timers in place. With no other event
  the notice is gone 6 seconds after it was raised; it is displayed throughout the 6
  seconds when no earlier timer falls due in that time, and it is cleared as soon as an
  earlier timer has fired.
\<close>

theorem error_notice_lifetime:
  "error (handleError msg s) = msg
   \<and> timers (handleError msg s) = timers s @ [clock s + 6000]
   \<and> error (elapse 6000 (handleError msg s)) = []
   \<and> (d < 6000 \<and> (\<forall>due \<in> set (timers s). clock s + int d < due) \<longrightarrow>
        error (elapse d (handleError msg s)) = msg)
   \<and> ((\<exists>due \<in> set (timers s). due \<le> clock s + int d) \<longrightarrow>
        error (elapse d (handleError msg s)) = [])"
  by (auto simp: effect_defs Let_def)

theorem error_notice_lifetime_witness:
  "error (elapse 5999 (handleError ''first'' (initial_app 0))) = ''first''
   \<and> error (elapse 6000 (handleError ''first'' (initial_app 0))) = []
   \<and> error (elapse 2000 (handleError ''second'' (elapse 4000 (handleError ''first'' (initial_app 0)))))
       = []"
proof -
  let ?s = "elapse 4000 (handleError ''first'' (initial_app 0))"
  have a: "(5999::nat) < 6000 \<and> (\<forall>due \<in> set (timers (initial_app 0)).
      clock (initial_app 0) + int 5999 < due)"
    by (simp add: initial_app_def)
  have b: "\<exists>due \<in> set (timers ?s). due \<le> clock ?s + int 2000"
    by (simp add: effect_defs initial_app_def Let_def)
  show ?thesis
    using error_notice_lifetime [of "''first''" "initial_app 0" 5999]
      error_notice_lifetime [of "''second''" ?s 2000] a b
    by simp
qed

section \<open>Resetting while a call is in flight\<close>

lemma startOver_clears:
  "toyImage (startOver s) = None" "toyImagePart (startOver s) = None"
  "toyDescription (startOver s) = []" "toyReply (startOver s) = []"
  "actionImage (startOver s) = None" "error (startOver s) = []"
  "abortControllerRef (startOver s) = None" "toyImageObjectUrlRef (startOver s) = None"
  by (simp_all add: startOver_def effect_defs Let_def split: option.splits)

lemma startOver_aborts_in_flight:
  "aborted (startOver (elapse d (begin_attempt model s))) = controllers s # aborted s"
  by (simp add: startOver_def effect_defs Let_def split: option.splits)

lemma elapse_fields:
  "toyImage (elapse d s) = toyImage s" "toyDescription (elapse d s) = toyDescription s"
  "toyReply (elapse d s) = toyReply s" "actionImage (elapse d s) = actionImage s"
  "toyImagePart (elapse d s) = toyImagePart s"
  by (simp_all add: elapse_def Let_def)

lemma describe_settle_resolved:
  "describe_settle (Resolved (Some resp)) attempt s = Break (end_attempt (describe_resolved resp s))"
  by (simp add: describe_settle_def describe_result_def)

lemma sendCommand_settle_resolved:
  "sendCommand_settle (Resolved r) attempt s = Break (end_attempt (sendCommand_resolved r s))"
  by (simp add: sendCommand_settle_def)

lemma sendCommand_resolved_stores:
  fixes resp s
  defines "s' \<equiv> sendCommand_resolved (Some resp) s"
  defines "txt \<equiv> (case resp_text resp of None \<Rightarrow> [] | Some t \<Rightarrow> trim t)"
  defines "img \<equiv> find carries_payload (response_parts resp)"
  shows "toyReply s' = (if txt = [] then toyReply s else txt)"
    and "actionImage s' =
           (case img of None \<Rightarrow> actionImage s
            | Some p \<Rightarrow> Some (''data:image/png;base64,'' @ payload p))"
    and "toyImage s' = toyImage s" and "toyImagePart s' = toyImagePart s"
proof -
  have p: "img = None \<Longrightarrow> first_image_data (response_parts resp) = []"
    by (simp add: first_image_data_find img_def)
  have q: "img = Some x \<Longrightarrow> first_image_data (response_parts resp) = payload x \<and> payload x \<noteq> []" for x
    unfolding img_def using find_Some_iff [of carries_payload "response_parts resp" x]
    by (auto simp: first_image_data_find carries_payload_def)
  show "toyReply s' = (if txt = [] then toyReply s else txt)"
    by (cases img)
       (auto simp: s'_def txt_def sendCommand_resolved_def effect_defs Let_def p q
          split: option.splits)
  show "actionImage s' =
           (case img of None \<Rightarrow> actionImage s
            | Some p \<Rightarrow> Some (''data:image/png;base64,'' @ payload p))"
    by (cases img)
       (auto simp: s'_def txt_def sendCommand_resolved_def effect_defs Let_def p q
          split: option.splits)
  show "toyImage s' = toyImage s" "toyImagePart s' = toyImagePart s"
    by (auto simp: s'_def sendCommand_resolved_def effect_defs Let_def)
qed

lemma describe_resolved_stores:
  "toyDescription (describe_resolved resp s) =
     (case resp_text resp of
        None \<Rightarrow> placeholder_description
      | Some t \<Rightarrow> if t = [] then placeholder_description else t)"
  "toyImage (describe_resolved resp s) = toyImage s"
  "toyImagePart (describe_resolved resp s) = toyImagePart s"
  by (simp_all add: describe_resolved_def effect_defs Let_def split: option.splits)

lemma end_attempt_fields:
  "toyImage (end_attempt s) = toyImage s" "toyDescription (end_attempt s) = toyDescription s"
  "toyReply (end_attempt s) = toyReply s" "actionImage (end_attempt s) = actionImage s"
  "toyImagePart (end_attempt s) = toyImagePart s"
  by (simp_all add: end_attempt_def)

lemma sleep_fields:
  "toyImage (sleep d s) = toyImage s" "toyDescription (sleep d s) = toyDescription s"
  "toyReply (sleep d s) = toyReply s" "actionImage (sleep d s) = actionImage s"
  "toyImagePart (sleep d s) = toyImagePart s"
  by (simp_all add: sleep_def elapse_def perform_def Let_def)

lemma begin_attempt_fields:
  "toyImage (begin_attempt m s) = toyImage s" "toyDescription (begin_attempt m s) = toyDescription s"
  "toyReply (begin_attempt m s) = toyReply s" "actionImage (begin_attempt m s) = actionImage s"
  "toyImagePart (begin_attempt m s) = toyImagePart s"
  by (simp_all add: begin_attempt_def perform_def)

text \<open>
  Claim C9. A call is in flight, the user starts over, and the call settles afterwards.
  \<open>startOver\<close> aborts the controller of the call and clears the session. A late
  response is stored all the same: the description, the reply and the action image are
  written into the cleared session. When the call rejects instead, as an aborted request
  does, the rejection counts as a transient failure: the loop sleeps, calls again and
  stores the answer to that call.
\<close>

theorem late_response_is_stored_after_reset:
  fixes s :: app and resp :: response and d d' ms :: nat
  defines "s1 \<equiv> elapse d' (startOver (elapse d (begin_attempt describe_model s)))"
    and "s2 \<equiv> elapse d' (startOver (elapse d (begin_attempt reply_model s)))"
    and "txt \<equiv> (case resp_text resp of None \<Rightarrow> [] | Some t \<Rightarrow> trim t)"
    and "img \<equiv> find carries_payload (response_parts resp)"
  shows "aborted (startOver (elapse d (begin_attempt describe_model s))) = controllers s # aborted s
       \<and> toyImage s1 = None \<and> toyImagePart s1 = None \<and> toyDescription s1 = []
       \<and> toyDescription (flow_state (describe_settle (Resolved (Some (text_response ''A fluffy bear''))) 0 s1))
            = ''A fluffy bear''
       \<and> toyImage (flow_state (describe_settle (Resolved (Some (text_response ''A fluffy bear''))) 0 s1))
            = None
       \<and> toyReply (flow_state (sendCommand_settle (Resolved (Some resp)) 0 s2)) = txt
       \<and> actionImage (flow_state (sendCommand_settle (Resolved (Some resp)) 0 s2))
            = map_option (\<lambda>p. ''data:image/png;base64,'' @ payload p) img
       \<and> toyImagePart (flow_state (sendCommand_settle (Resolved (Some resp)) 0 s2)) = None
       \<and> sendCommand_settle (Rejected abort_error) 0 s2
            = Continue (end_attempt (sleep 1600 s2))
       \<and> toyReply (sendCommand_loop (\<lambda>k. (ms, Resolved (Some resp))) 1
                      (end_attempt (sleep 1600 s2))) = txt
       \<and> calls (trace (sendCommand_loop (\<lambda>k. (ms, Resolved (Some resp))) 1
                      (end_attempt (sleep 1600 s2)))) = calls (trace s2) + 1"
proof -
  have a: "aborted (startOver (elapse d (begin_attempt describe_model s))) = controllers s # aborted s"
    by (rule startOver_aborts_in_flight)
  have b: "toyImage s1 = None \<and> toyImagePart s1 = None \<and> toyDescription s1 = []"
    by (simp add: s1_def elapse_fields startOver_clears)
  have b2: "toyImagePart s2 = None \<and> toyReply s2 = [] \<and> actionImage s2 = None"
    by (simp add: s2_def elapse_fields startOver_clears)
  have c: "toyDescription (flow_state (describe_settle (Resolved (Some (text_response ''A fluffy bear''))) 0 s1))
            = ''A fluffy bear''"
    by (simp add: describe_settle_resolved end_attempt_fields describe_resolved_stores
        text_response_def)
  have e: "toyImage (flow_state (describe_settle (Resolved (Some (text_response ''A fluffy bear''))) 0 s1))
            = None"
    using b by (simp add: describe_settle_resolved end_attempt_fields describe_resolved_stores)
  have f: "toyReply (flow_state (sendCommand_settle (Resolved (Some resp)) 0 s2)) = txt"
    using b2
    by (simp add: sendCommand_settle_resolved end_attempt_fields sendCommand_resolved_stores
        txt_def)
  have g: "actionImage (flow_state (sendCommand_settle (Resolved (Some resp)) 0 s2))
            = map_option (\<lambda>p. ''data:image/png;base64,'' @ payload p) img"
    using b2
    by (cases img)
       (simp_all add: sendCommand_settle_resolved end_attempt_fields sendCommand_resolved_stores
          img_def [symmetric])
  have h: "toyImagePart (flow_state (sendCommand_settle (Resolved (Some resp)) 0 s2)) = None"
    using b2
    by (simp add: sendCommand_settle_resolved end_attempt_fields sendCommand_resolved_stores)
  have i: "sendCommand_settle (Rejected abort_error) 0 s2
            = Continue (end_attempt (sleep 1600 s2))"
    by (simp add: sendCommand_settle_transient abort_error_transient SAFE_RETRY_COUNT_def
        backoff_def RETRY_BASE_DELAY_MS_def)
  let ?svc = "\<lambda>k::nat. (ms, Resolved (Some resp))"
  let ?s3 = "end_attempt (sleep 1600 s2)"
  have l: "sendCommand_loop ?svc 1 ?s3 = sendCommand_done (Some resp) ms ?s3"
    using sendCommand_loop_resolved [of 1 ?svc "Some resp" ?s3]
    by (simp add: SAFE_RETRY_COUNT_def)
  have j: "toyReply (sendCommand_loop ?svc 1 ?s3) = txt"
    unfolding l using b2
    by (simp add: sendCommand_done_fields(1) end_attempt_fields sleep_fields txt_def)
  have k: "calls (trace (sendCommand_loop ?svc 1 ?s3)) = calls (trace s2) + 1"
    unfolding l
    by (simp add: sendCommand_done_fields(5))
       (simp add: end_attempt_def sleep_def elapse_def perform_def Let_def calls_def)
  show ?thesis
    using a b c e f g h i j k by simp
qed

section \<open>Facts about the earlier component\<close>

lemma legacy_notice_five_seconds:
  "timers (legacy_handleError msg s) = timers s @ [clock s + 5000]"
  by (simp add: legacy_handleError_def effect_defs)

lemma legacy_blank_command_passes:
  "\<not> legacy_sendCommand_returns '' '' (ready_app 1000)"
  by (simp add: legacy_sendCommand_returns_def ready_app_def initial_app_def)

lemma legacy_scan_last_image:
  "legacy_scan (response_parts whee_response) ([], []) = ('' Whee! '', ''data:image/png;base64,IMG2'')"
  by code_simp

lemma legacy_describe_failed_clears_preview:
  "toyImage (legacy_describe_failed e s) = None
   \<and> toyImagePart (legacy_describe_failed e s) = toyImagePart s"
  by (simp add: legacy_describe_failed_def legacy_handleError_def effect_defs Let_def)

section \<open>The upload whose file cannot be read\<close>

text \<open>The outer \<open>catch\<close> block of \<open>handleFileChange\<close>: no call is made, the
  notice is shown and the preview is cleared.\<close>

lemma unreadable_file_clears_preview:
  assumes "prefix ''image/'' (file_type f)" and "read_result f = None"
  shows "toyImage (handleFileChange (Some f) svc s) = None
       \<and> toyImagePart (handleFileChange (Some f) svc s) = None
       \<and> toyImageObjectUrlRef (handleFileChange (Some f) svc s) = None
       \<and> error (handleFileChange (Some f) svc s) = ''Failed to read the image or call the API.''
       \<and> calls (trace (handleFileChange (Some f) svc s)) = calls (trace s)"
  using assms calls_startOver [of s]
  by (simp add: handleFileChange_def base64Encode_def handleFileChange_begin_def effect_defs
      Let_def startOver_clears calls_def)

section \<open>A transcript that arrives late\<close>

lemma calls_settle:
  "sendCommand_settle out attempt s = Break s' \<Longrightarrow> calls (trace s') = calls (trace s)"
  "sendCommand_settle out attempt s = Continue s' \<Longrightarrow> calls (trace s') = calls (trace s)"
  by (auto simp: sendCommand_settle_def sendCommand_resolved_def effect_defs Let_def calls_def
      split: outcome.splits if_splits option.splits)

lemma calls_attempt:
  "calls (trace (elapse ms (begin_attempt model s))) = calls (trace s) + 1"
  by (simp add: effect_defs Let_def calls_def)

lemma calls_sendCommand_loop:
  "calls (trace s) + (if attempt \<le> SAFE_RETRY_COUNT then 1 else 0)
     \<le> calls (trace (sendCommand_loop svc attempt s))"
proof (induction svc attempt s rule: sendCommand_loop.induct)
  case (1 svc attempt s)
  let ?r = "sendCommand_settle (snd (svc attempt)) attempt
              (elapse (fst (svc attempt)) (begin_attempt reply_model s))"
  show ?case
  proof (cases "attempt \<le> SAFE_RETRY_COUNT")
    case False
    then show ?thesis by (subst sendCommand_loop.simps) simp
  next
    case True
    show ?thesis
    proof (cases ?r)
      case (Break s')
      then show ?thesis
        using True calls_settle(1) [OF Break]
        by (simp add: sendCommand_loop_Break calls_attempt)
    next
      case (Continue s')
      have "calls (trace s') \<le> calls (trace (sendCommand_loop svc (attempt + 1) s'))"
        using "1.IH" [OF True Continue] by (simp split: if_splits)
      then show ?thesis
        using True Continue calls_settle(2) [OF Continue]
        by (simp add: sendCommand_loop_Continue calls_attempt)
    qed
  qed
qed

lemma recog_onresult_accepted:
  assumes "trim transcript \<noteq> []" and "toyImagePart r \<noteq> None"
    and "600 \<le> clock s - lastSendAt r"
  shows "recog_onresult r transcript svc s =
           (sendCommand_loop svc 0
              (sendCommand_begin (s\<lparr>userCommand := transcript, lastSendAt := clock s\<rparr>)))
             \<lparr>isLoadingResponse := False\<rparr>"
  using assms sendCommand_of_accepted [of "Some transcript" r "s\<lparr>userCommand := transcript\<rparr>" svc]
  by (simp add: recog_onresult_def command_text_def)

lemma trim_jump: "trim ''jump'' = ''jump''"
  by code_simp

text \<open>
  Claim C5. The microphone is clicked while an image is held, and the transcript arrives
  when the session holds none, after a reset: the callback's \<open>sendCommand\<close> still
  sees the image part of its own render, so the command is sent and the answer stored,
  in a session with no image captured.
\<close>

theorem stale_transcript_is_sent_without_image:
  assumes "trim transcript \<noteq> []" and "toyImagePart r \<noteq> None"
    and "600 \<le> clock s - lastSendAt r"
    and "toyImagePart s = None"
    and "snd (svc 0) = Resolved (Some resp)"
  shows "toyImagePart (recog_onresult r transcript svc s) = None
       \<and> calls (trace (recog_onresult r transcript svc s)) = calls (trace s) + 1
       \<and> toyReply (recog_onresult r transcript svc s) =
           (case resp_text resp of None \<Rightarrow> [] | Some t \<Rightarrow> trim t)
       \<and> actionImage (recog_onresult r transcript svc s) =
           map_option (\<lambda>p. ''data:image/png;base64,'' @ payload p)
             (find carries_payload (response_parts resp))
       \<and> recog_onresult r transcript svc s \<noteq> s"
proof -
  let ?s0 = "sendCommand_begin (s\<lparr>userCommand := transcript, lastSendAt := clock s\<rparr>)"
  let ?img = "find carries_payload (response_parts resp)"
  have eq: "recog_onresult r transcript svc s =
      (sendCommand_done (Some resp) (fst (svc 0)) ?s0)\<lparr>isLoadingResponse := False\<rparr>"
    using assms(1-3,5)
    by (simp add: recog_onresult_accepted sendCommand_loop_resolved SAFE_RETRY_COUNT_def)
  have p: "toyImagePart (recog_onresult r transcript svc s) = None"
    using assms(4)
    by (simp add: eq sendCommand_done_def end_attempt_fields sendCommand_resolved_stores
        elapse_fields begin_attempt_fields sendCommand_begin_def effect_defs Let_def)
  have c: "calls (trace (recog_onresult r transcript svc s)) = calls (trace s) + 1"
    by (simp add: eq sendCommand_done_fields(5) calls_sendCommand_begin)
  have t: "toyReply (recog_onresult r transcript svc s) =
           (case resp_text resp of None \<Rightarrow> [] | Some t \<Rightarrow> trim t)"
    by (simp add: eq sendCommand_done_fields(1) sendCommand_begin_fields)
  have i: "actionImage (recog_onresult r transcript svc s) =
           map_option (\<lambda>p. ''data:image/png;base64,'' @ payload p) ?img"
    by (cases ?img) (simp_all add: eq sendCommand_done_fields(2) sendCommand_begin_fields)
  have n: "recog_onresult r transcript svc s \<noteq> s"
    using c by auto
  show ?thesis
    using p c t i n by simp
qed

theorem stale_transcript_is_sent_without_image_witness:
  "toyImagePart (elapse 2000 (startOver (recog_onstart (handleMicClick (ready_app 1000))))) = None
   \<and> calls (trace (recog_onresult (ready_app 1000) ''dance''
        (\<lambda>k. (100, Resolved (Some whee_response)))
        (elapse 2000 (startOver (recog_onstart (handleMicClick (ready_app 1000))))))) = 1
   \<and> toyReply (recog_onresult (ready_app 1000) ''dance''
        (\<lambda>k. (100, Resolved (Some whee_response)))
        (elapse 2000 (startOver (recog_onstart (handleMicClick (ready_app 1000)))))) = ''Whee!''
   \<and> toyImagePart (recog_onresult (ready_app 1000) ''dance''
        (\<lambda>k. (100, Resolved (Some whee_response)))
        (elapse 2000 (startOver (recog_onstart (handleMicClick (ready_app 1000)))))) = None"
proof -
  let ?s = "elapse 2000 (startOver (recog_onstart (handleMicClick (ready_app 1000))))"
  have a: "trim ''dance'' \<noteq> []"
    by (simp add: trim_dance)
  have b: "toyImagePart (ready_app 1000) \<noteq> None"
    by (simp add: ready_app_def initial_app_def)
  have c: "600 \<le> clock ?s - lastSendAt (ready_app 1000)"
    by code_simp
  have d: "toyImagePart ?s = None"
    by (simp add: elapse_fields startOver_clears)
  have e: "snd ((\<lambda>k::nat. (100::nat, Resolved (Some whee_response))) 0)
      = Resolved (Some whee_response)"
    by simp
  have f: "calls (trace ?s) = 0"
    by code_simp
  show ?thesis
    using stale_transcript_is_sent_without_image [OF a b c d e] d f
    by (simp add: whee_response_text)
qed

text \<open>
  Claim C6. The microphone is clicked, a command is then accepted through a button, and
  the transcript arrives less than 600 milliseconds after that: the callback's
  \<open>canSendNow\<close> compares with the \<open>lastSendAt\<close> of its own render, which is
  older, so the transcript is accepted as well and a second call is issued, where the
  handler of the latest render returns the state as it was.
\<close>

theorem stale_transcript_bypasses_debounce:
  assumes "trim transcript \<noteq> []" and "toyImagePart r \<noteq> None"
    and "600 \<le> clock s - lastSendAt r"
    and "clock s - lastSendAt s < 600"
  shows "calls (trace s) < calls (trace (recog_onresult r transcript svc s))
       \<and> lastSendAt (recog_onresult r transcript svc s) = clock s
       \<and> sendCommand (Some transcript) svc s = s"
proof -
  let ?s0 = "sendCommand_begin (s\<lparr>userCommand := transcript, lastSendAt := clock s\<rparr>)"
  have eq: "recog_onresult r transcript svc s =
      (sendCommand_loop svc 0 ?s0)\<lparr>isLoadingResponse := False\<rparr>"
    using assms(1-3) by (rule recog_onresult_accepted)
  have "calls (trace ?s0) + 1 \<le> calls (trace (sendCommand_loop svc 0 ?s0))"
    using calls_sendCommand_loop [of ?s0 0 svc] by simp
  then have c: "calls (trace s) < calls (trace (recog_onresult r transcript svc s))"
    by (simp add: eq calls_sendCommand_begin)
  have l: "lastSendAt (recog_onresult r transcript svc s) = clock s"
    by (simp add: eq lastSendAt_sendCommand_loop sendCommand_begin_def effect_defs)
  have n: "sendCommand (Some transcript) svc s = s"
    using assms(4) by (simp add: sendCommand_def sendCommand_of_def canSendNow_def Let_def)
  show ?thesis
    using c l n by simp
qed

theorem stale_transcript_bypasses_debounce_witness:
  "clock (elapse 300 (sendCommand (Some ''dance'') (\<lambda>k. (100, Resolved (Some whee_response)))
        (elapse 500 (recog_onstart (handleMicClick (ready_app 1000))))))
     - lastSendAt (elapse 300 (sendCommand (Some ''dance'') (\<lambda>k. (100, Resolved (Some whee_response)))
        (elapse 500 (recog_onstart (handleMicClick (ready_app 1000)))))) = 400
   \<and> calls (trace (elapse 300 (sendCommand (Some ''dance'') (\<lambda>k. (100, Resolved (Some whee_response)))
        (elapse 500 (recog_onstart (handleMicClick (ready_app 1000))))))) = 1
   \<and> 1 < calls (trace (recog_onresult (ready_app 1000) ''jump''
        (\<lambda>k. (100, Resolved (Some whee_response)))
        (elapse 300 (sendCommand (Some ''dance'') (\<lambda>k. (100, Resolved (Some whee_response)))
          (elapse 500 (recog_onstart (handleMicClick (ready_app 1000))))))))"
proof -
  let ?svc = "\<lambda>k::nat. (100::nat, Resolved (Some whee_response))"
  let ?s = "elapse 300 (sendCommand (Some ''dance'') ?svc
        (elapse 500 (recog_onstart (handleMicClick (ready_app 1000)))))"
  have a: "trim ''jump'' \<noteq> []"
    by (simp add: trim_jump)
  have b: "toyImagePart (ready_app 1000) \<noteq> None"
    by (simp add: ready_app_def initial_app_def)
  have c: "600 \<le> clock ?s - lastSendAt (ready_app 1000)"
    by code_simp
  have d: "clock ?s - lastSendAt ?s = 400"
    by code_simp
  have d': "clock ?s - lastSendAt ?s < 600"
    using d by simp
  have f: "calls (trace ?s) = 1"
    by code_simp
  show ?thesis
    using stale_transcript_bypasses_debounce [OF a b c d', of ?svc] d f
    by simp
qed

end
